theory Spec2Isabelle
  imports Complex_Main "HOL-Library.Word"
begin

section \<open>The RPN controller of rpn-controller.cpp\<close>

text \<open>
  A shallow embedding of \<^verbatim>\<open>src/rpn-controller.cpp\<close>: the tokenizer \<^verbatim>\<open>nextWord\<close>,
  the value stack, the parameter validator, the run-time and compile-time evaluators,
  \<^verbatim>\<open>parse\<close>, and the two dictionaries built by the constructor of
  \<^verbatim>\<open>RpnCncController::Privates\<close>.

  Conventions of the embedding.
  \<^item> A \<^verbatim>\<open>std::string\<close> is a \<open>string\<close> (a list of bytes).
  \<^item> \<^verbatim>\<open>std::string::size_type\<close> results are positions or \<^verbatim>\<open>std::string::npos\<close>. The
    sentinel is the largest value of the type, which no position inside a string can
    reach; the model keeps a position as \<open>Pos p\<close> with \<open>p\<close> a natural number and
    the sentinel as the separate value \<open>npos\<close>.
  \<^item> \<^verbatim>\<open>long\<close> is 64 bits wide (LP64, the platform of the sources: \<^verbatim>\<open>%lu\<close> prints a
    \<^verbatim>\<open>size_t\<close>).
  \<^item> \<^verbatim>\<open>double\<close> is a type parameter \<open>'d\<close>. What is floating point in the library
    functions the code calls is kept in a record \<open>'d libc\<close> handed to the evaluators:
    the rounding of an exact rational value to a \<^verbatim>\<open>double\<close>, \<^verbatim>\<open>std::nan\<close> and the
    conversion from \<^verbatim>\<open>long\<close>. How \<^verbatim>\<open>strtod\<close> reads the text of a number is
    modelled, with the exact value as a rational number.
  \<^item> The lambdas stored in the dictionaries are defunctionalised: \<open>word_fn\<close> has one
    constructor per lambda body of the source, and \<open>call\<close> runs it.
  \<^item> What the code writes with \<^verbatim>\<open>printf\<close> is appended to the field \<open>printed\<close> of the
    state.
\<close>

subsection \<open>Tokenizer\<close>

datatype size_type = Pos nat | npos

text \<open>\<^verbatim>\<open>buffer.find(delim, 0)\<close>: the position of the first occurrence, or \<^verbatim>\<open>npos\<close>.\<close>

fun str_find :: "string \<Rightarrow> char \<Rightarrow> size_type" where
  "str_find [] delim = npos"
| "str_find (c # cs) delim =
     (if c = delim then Pos 0
      else (case str_find cs delim of npos \<Rightarrow> npos | Pos p \<Rightarrow> Pos (Suc p)))"

text \<open>
  \<^verbatim>\<open>s.substr(pos, n)\<close> for \<open>pos \<le> length s\<close> (the only way \<^verbatim>\<open>nextWord\<close> calls it);
  \<^verbatim>\<open>s.substr(pos, npos)\<close> is the rest of the string from \<open>pos\<close>.
\<close>

definition substr :: "string \<Rightarrow> nat \<Rightarrow> size_type \<Rightarrow> string" where
  "substr s pos n = (case n of npos \<Rightarrow> drop pos s | Pos k \<Rightarrow> take k (drop pos s))"

text \<open>
  \<^verbatim>\<open>nextWord(word, buffer, delim)\<close> writes \<^verbatim>\<open>word\<close> and \<^verbatim>\<open>buffer\<close> and returns the
  position; the model returns the triple (result, word, buffer).
\<close>

definition nextWord :: "string \<Rightarrow> char \<Rightarrow> size_type \<times> string \<times> string" where
  "nextWord buffer delim =
     (case str_find buffer delim of
        npos \<Rightarrow> (npos, buffer, [])
      | Pos p1 \<Rightarrow> (Pos p1, substr buffer 0 (Pos p1), substr buffer (p1 + 1) npos))"

subsection \<open>Values, parameter types and dictionary entries\<close>

datatype 'd Vec3 = Vec3 'd 'd 'd

datatype datatype_t = st_double | st_integer | st_string | st_vec3 | st_number | st_any

text \<open>The numeric value of an enumerator of \<^verbatim>\<open>datatype_t\<close>.\<close>

fun datatype_int :: "datatype_t \<Rightarrow> nat" where
  "datatype_int st_double = 0"
| "datatype_int st_integer = 1"
| "datatype_int st_string = 2"
| "datatype_int st_vec3 = 3"
| "datatype_int st_number = 4"
| "datatype_int st_any = 5"

text \<open>\<^verbatim>\<open>std::variant<double, long, std::string, Vec3>\<close> and its \<^verbatim>\<open>index()\<close>.\<close>

datatype 'd stacktype_t =
  V_double 'd | V_long "64 word" | V_string string | V_vec3 "'d Vec3"

fun index :: "'d stacktype_t \<Rightarrow> nat" where
  "index (V_double d) = 0"
| "index (V_long i) = 1"
| "index (V_string s) = 2"
| "index (V_vec3 v) = 3"

record param_t =
  name :: string
  type :: datatype_t

text \<open>
  The bodies of the lambdas stored in the dictionaries, one constructor per distinct body:
  \<open>fn_nop\<close> for the bodies that only return 0, \<open>fn_user wl\<close> for the lambda that
  \<open>;\<close> installs (it captures the word list \<open>wl\<close> by value).
\<close>

datatype word_fn =
  fn_nop | fn_print_stack | fn_string_literal | fn_comment | fn_colon
  | fn_dup | fn_drop | fn_to_x | fn_to_y | fn_to_z
  | fn_end_definition | fn_user "string list"

record word_t =
  description :: string
  params :: "param_t list list"
  eval_fn :: word_fn

text \<open>
  What the code prints. A \<^verbatim>\<open>printf\<close> of strings only is kept as its text; the ones
  that format numbers, the stack or a dictionary entry are kept with their arguments.
\<close>

datatype 'd printf_t =
  Text string
  | Size_too_small nat nat
  | Stack_dump "'d stacktype_t list"
  | Word_dump string word_t

text \<open>
  The state of \<^verbatim>\<open>RpnCncController::Privates\<close>. The back of the deque is the top of the
  stack, so the last element of the list \<open>stack\<close> is the top.
\<close>

record 'd Privates =
  runtimeDictionary :: "string \<rightharpoonup> word_t"
  compiletimeDictionary :: "string \<rightharpoonup> word_t"
  isCompiling :: bool
  newWord :: string
  newDefinition :: "string list"
  stack :: "'d stacktype_t list"
  printed :: "'d printf_t list"

text \<open>
  \<open>to_double\<close> rounds the exact value of a number read by \<^verbatim>\<open>strtod\<close> to a
  \<^verbatim>\<open>double\<close> (\<^verbatim>\<open>HUGE_VAL\<close> when it is too large); \<open>strtod_other\<close> is the result
  of \<^verbatim>\<open>strtod\<close> on a string that does not start with a digit (white space, signs,
  infinities, NaNs, no number at all), which this program never passes.
\<close>

record 'd libc =
  to_double :: "rat \<Rightarrow> 'd"
  strtod_other :: "string \<Rightarrow> 'd"
  nan :: 'd
  of_long :: "64 word \<Rightarrow> 'd"

text \<open>
  A call either returns or has no defined result: the recursion of user words is deeper
  than the fuel (in the source it need not end), or the source reads the back of an
  empty deque.
\<close>

datatype fault = Out_of_fuel | Empty_stack

definition print :: "'d printf_t \<Rightarrow> 'd Privates \<Rightarrow> 'd Privates" where
  "print x s = s\<lparr>printed := printed s @ [x]\<rparr>"

subsection \<open>Stack\<close>

definition stack_push :: "'d stacktype_t \<Rightarrow> 'd Privates \<Rightarrow> 'd Privates" where
  "stack_push val s = s\<lparr>stack := stack s @ [val]\<rparr>"

definition stack_pop :: "'d Privates \<Rightarrow> fault + 'd stacktype_t \<times> 'd Privates" where
  "stack_pop s =
     (if stack s = [] then Inl Empty_stack
      else Inr (last (stack s), s\<lparr>stack := butlast (stack s)\<rparr>))"

definition stack_pop_as_double :: "'d libc \<Rightarrow> 'd Privates \<Rightarrow> fault + 'd \<times> 'd Privates" where
  "stack_pop_as_double L s =
     (case stack_pop s of
        Inl f \<Rightarrow> Inl f
      | Inr (s0, s') \<Rightarrow>
          Inr (case s0 of
                 V_double d \<Rightarrow> d
               | V_long i \<Rightarrow> of_long L i
               | V_string _ \<Rightarrow> nan L
               | V_vec3 _ \<Rightarrow> nan L, s'))"

definition print_stack :: "'d Privates \<Rightarrow> 'd Privates" where
  "print_stack s = print (Stack_dump (stack s)) s"

subsection \<open>Validator\<close>

text \<open>
  \<^verbatim>\<open>top_of_stack_types(n)\<close>: the reverse iterator starts \<open>n - 1\<close> below the top and
  walks towards the top, so the result lists the tags of the top \<open>n\<close> values from the
  deepest of them to the topmost. With fewer than \<open>n\<close> values it prints and returns
  the empty vector.
\<close>

definition top_of_stack_types :: "nat \<Rightarrow> 'd Privates \<Rightarrow> nat list \<times> 'd Privates" where
  "top_of_stack_types n s =
     (if length (stack s) < n then ([], print (Size_too_small (length (stack s)) n) s)
      else (map index (drop (length (stack s) - n) (stack s)), s))"

text \<open>\<^verbatim>\<open>operator==(const datatype_t &dt, const size_t &index)\<close>.\<close>

fun datatype_eq :: "datatype_t \<Rightarrow> nat \<Rightarrow> bool" where
  "datatype_eq st_number idx = (datatype_int st_double = idx \<or> datatype_int st_integer = idx)"
| "datatype_eq st_any idx = True"
| "datatype_eq dt idx = (datatype_int dt = idx)"

text \<open>
  The inner loop of \<^verbatim>\<open>validate_stack_for_word\<close>:
  \<^verbatim>\<open>for (i = 0; i < n && pred == true; i++) pred = ((*p)[i].type == tv[i])\<close>,
  from index \<open>i\<close> on. Where it runs \<open>tv\<close> has \<open>n\<close> entries.
\<close>

function params_match :: "param_t list \<Rightarrow> nat list \<Rightarrow> nat \<Rightarrow> bool \<Rightarrow> bool" where
  "params_match p tv i pred =
     (if i < length p \<and> pred then params_match p tv (i + 1) (datatype_eq (type (p ! i)) (tv ! i))
      else pred)"
  by pat_completeness auto
termination
  by (relation "measure (\<lambda>(p, tv, i, pred). length p - i)") auto

declare params_match.simps [simp del]

text \<open>
  The outer loop over the alternatives \<^verbatim>\<open>de.second.params\<close>, which stops at the first
  alternative that matches (\<^verbatim>\<open>rv == false\<close> is part of the loop condition).
\<close>

fun validate_loop :: "param_t list list \<Rightarrow> bool \<Rightarrow> 'd Privates \<Rightarrow> bool \<times> 'd Privates" where
  "validate_loop [] rv s = (rv, s)"
| "validate_loop (p # ps) rv s =
     (if rv then (rv, s)
      else (case top_of_stack_types (length p) s of
              (tv, s') \<Rightarrow>
                validate_loop ps (if tv \<noteq> [] then params_match p tv 0 True else rv) s'))"

definition validate_stack_for_word :: "string \<times> word_t \<Rightarrow> 'd Privates \<Rightarrow> bool \<times> 'd Privates" where
  "validate_stack_for_word de s =
     validate_loop (params (snd de))
       (length (params (snd de)) = 0 \<or>
        (length (params (snd de)) = 1 \<and> length (params (snd de) ! 0) = 0)) s"

subsection \<open>Library functions on C strings\<close>

text \<open>\<^verbatim>\<open>word.c_str()\<close> read as a C string: the bytes before the first NUL.\<close>

definition c_str :: "string \<Rightarrow> string" where
  "c_str s = takeWhile (\<lambda>c. c \<noteq> CHR 0x00) s"

text \<open>\<^verbatim>\<open>word[0]\<close>: the first byte, and the terminating NUL for the empty string.\<close>

definition first_byte :: "string \<Rightarrow> char" where
  "first_byte s = (case s of [] \<Rightarrow> CHR 0x00 | c # _ \<Rightarrow> c)"

definition isdigit :: "char \<Rightarrow> bool" where
  "isdigit c = (48 \<le> (of_char c :: nat) \<and> (of_char c :: nat) \<le> 57)"

definition isspace :: "char \<Rightarrow> bool" where
  "isspace c = ((of_char c :: nat) = 32 \<or> (9 \<le> (of_char c :: nat) \<and> (of_char c :: nat) \<le> 13))"

text \<open>The value of a byte as a digit of \<^verbatim>\<open>strtol\<close>: 0-9, then a-z or A-Z for 10-35.\<close>

definition digit_value :: "char \<Rightarrow> nat option" where
  "digit_value c =
     (let k = (of_char c :: nat) in
      if 48 \<le> k \<and> k \<le> 57 then Some (k - 48)
      else if 97 \<le> k \<and> k \<le> 122 then Some (k - 87)
      else if 65 \<le> k \<and> k \<le> 90 then Some (k - 55)
      else None)"

text \<open>The digits of the subject sequence, read in \<open>base\<close> up to the first other byte.\<close>

fun strtol_digits :: "nat \<Rightarrow> string \<Rightarrow> nat \<Rightarrow> nat" where
  "strtol_digits base [] acc = acc"
| "strtol_digits base (c # cs) acc =
     (case digit_value c of
        None \<Rightarrow> acc
      | Some v \<Rightarrow> if v < base then strtol_digits base cs (acc * base + v) else acc)"

text \<open>A \<^verbatim>\<open>0x\<close> or \<^verbatim>\<open>0X\<close> prefix counts only before a hexadecimal digit.\<close>

definition hex_prefix :: "string \<Rightarrow> bool" where
  "hex_prefix s =
     (case s of
        c0 # c1 # c2 # _ \<Rightarrow>
          c0 = CHR ''0'' \<and> (c1 = CHR ''x'' \<or> c1 = CHR ''X'') \<and>
          (case digit_value c2 of None \<Rightarrow> False | Some v \<Rightarrow> v < 16)
      | _ \<Rightarrow> False)"

definition detect_base :: "string \<Rightarrow> nat" where
  "detect_base s = (if hex_prefix s then 16 else if first_byte s = CHR ''0'' then 8 else 10)"

text \<open>A magnitude as a \<^verbatim>\<open>long\<close>; out of range it is \<^verbatim>\<open>LONG_MAX\<close> or \<^verbatim>\<open>LONG_MIN\<close>.\<close>

definition to_long :: "bool \<Rightarrow> nat \<Rightarrow> 64 word" where
  "to_long neg v =
     (if neg then (if v > 2 ^ 63 then word_of_nat (2 ^ 63) else - word_of_nat v)
      else (if v > 2 ^ 63 - 1 then word_of_nat (2 ^ 63 - 1) else word_of_nat v))"

text \<open>
  \<^verbatim>\<open>strtol(nptr, nullptr, base)\<close> of the C library, written from ISO C 7.22.1.4: white
  space, an optional sign, the base (for base 0: hexadecimal after \<^verbatim>\<open>0x\<close>, octal after
  a leading \<^verbatim>\<open>0\<close>, decimal otherwise), then the longest run of digits of that base. It
  returns 0 when there is no digit.
\<close>

definition strtol :: "string \<Rightarrow> nat \<Rightarrow> 64 word" where
  "strtol nptr base =
     (let s1 = dropWhile isspace nptr;
          neg = (first_byte s1 = CHR ''-'');
          s2 = (if first_byte s1 = CHR ''-'' \<or> first_byte s1 = CHR ''+'' then tl s1 else s1);
          b = (if base = 0 then detect_base s2 else base);
          s3 = (if b = 16 \<and> hex_prefix s2 then drop 2 s2 else s2)
      in to_long neg (strtol_digits b s3 0))"

text \<open>
  \<^verbatim>\<open>strtod(nptr, nullptr)\<close> on a string that starts with a digit, written from ISO C
  7.22.1.3 (C locale). The subject sequence is either a hexadecimal floating-point number
  (\<^verbatim>\<open>0x\<close> or \<^verbatim>\<open>0X\<close>, hexadecimal digits with an optional radix character and at least
  one digit, an optional binary exponent after \<^verbatim>\<open>p\<close> or \<^verbatim>\<open>P\<close>) or a decimal one
  (decimal digits with an optional radix character, an optional decimal exponent after
  \<^verbatim>\<open>e\<close> or \<^verbatim>\<open>E\<close>); an exponent letter counts only before digits, with an optional
  sign between.
\<close>

definition valid_digit :: "nat \<Rightarrow> char \<Rightarrow> bool" where
  "valid_digit base c = (case digit_value c of None \<Rightarrow> False | Some v \<Rightarrow> v < base)"

text \<open>The digits before the radix character, the digits after it, and what follows.\<close>

definition mantissa :: "nat \<Rightarrow> string \<Rightarrow> string \<times> string \<times> string" where
  "mantissa base s =
     (let ip = takeWhile (valid_digit base) s;
          r1 = dropWhile (valid_digit base) s
      in if first_byte r1 = CHR ''.''
         then (ip, takeWhile (valid_digit base) (tl r1), dropWhile (valid_digit base) (tl r1))
         else (ip, [], r1))"

definition significand :: "nat \<Rightarrow> string \<Rightarrow> string \<Rightarrow> rat" where
  "significand base ip fp = of_nat (strtol_digits base (ip @ fp) 0) / of_nat base ^ length fp"

text \<open>The exponent that follows the mantissa; 0 when there is none.\<close>

definition exponent :: "char \<Rightarrow> char \<Rightarrow> string \<Rightarrow> int" where
  "exponent lower upper r =
     (if first_byte r = lower \<or> first_byte r = upper then
        (let t = tl r;
             t' = (if first_byte t = CHR ''-'' \<or> first_byte t = CHR ''+'' then tl t else t);
             e = int (strtol_digits 10 (takeWhile (valid_digit 10) t') 0)
         in if first_byte t = CHR ''-'' then - e else e)
      else 0)"

definition scale :: "nat \<Rightarrow> int \<Rightarrow> rat \<Rightarrow> rat" where
  "scale b e v = (if 0 \<le> e then v * of_nat b ^ nat e else v / of_nat b ^ nat (- e))"

definition decimal_value :: "string \<Rightarrow> rat" where
  "decimal_value s =
     (case mantissa 10 s of
        (ip, fp, r) \<Rightarrow> scale 10 (exponent (CHR ''e'') (CHR ''E'') r) (significand 10 ip fp))"

definition hex_float :: "string \<Rightarrow> bool" where
  "hex_float s =
     (case s of
        c0 # c1 # t \<Rightarrow>
          c0 = CHR ''0'' \<and> (c1 = CHR ''x'' \<or> c1 = CHR ''X'') \<and>
          (case mantissa 16 t of (ip, fp, r) \<Rightarrow> ip @ fp \<noteq> [])
      | _ \<Rightarrow> False)"

definition hex_value :: "string \<Rightarrow> rat" where
  "hex_value s =
     (case mantissa 16 (drop 2 s) of
        (ip, fp, r) \<Rightarrow> scale 2 (exponent (CHR ''p'') (CHR ''P'') r) (significand 16 ip fp))"

definition strtod :: "'d libc \<Rightarrow> string \<Rightarrow> 'd" where
  "strtod L nptr =
     (if isdigit (first_byte nptr)
      then to_double L (if hex_float nptr then hex_value nptr else decimal_value nptr)
      else strtod_other L nptr)"

subsection \<open>Evaluators\<close>

type_synonym 'd outcome = "fault + size_type \<times> string \<times> 'd Privates"

definition quoted :: "string \<Rightarrow> string" where
  "quoted w = [CHR 0x27] @ w @ [CHR 0x27]"

text \<open>
  \<^verbatim>\<open>parse_comment\<close>. The message prints \<^verbatim>\<open>rest\<close> after \<^verbatim>\<open>nextWord\<close> has emptied it.
\<close>

definition parse_comment :: "string \<Rightarrow> string \<Rightarrow> 'd Privates \<Rightarrow> 'd outcome" where
  "parse_comment word rest s =
     (case nextWord rest (CHR '')'') of
        (npos, comment, rest') \<Rightarrow>
          Inr (npos, rest',
               print (Text (''parse error in comment: terminating '' @ quoted '')'' @
                            '' not found ['' @ c_str rest' @ '']'' @ [CHR 0x0A])) s)
      | (Pos p, comment, rest') \<Rightarrow> Inr (Pos p, rest', s))"

text \<open>The body of \<^verbatim>\<open>."\<close>: on a missing terminator it prints and returns 0.\<close>

definition string_literal :: "string \<Rightarrow> string \<Rightarrow> 'd Privates \<Rightarrow> 'd outcome" where
  "string_literal word rest s =
     (case nextWord rest (CHR 0x22) of
        (npos, literal, rest') \<Rightarrow>
          Inr (Pos 0, rest',
               print (Text (''parse error in string literal: terminating '' @ quoted [CHR 0x22] @
                            '' not found ['' @ c_str rest' @ '']'' @ [CHR 0x0A])) s)
      | (Pos p, literal, rest') \<Rightarrow> Inr (Pos p, rest', stack_push (V_string literal) s))"

text \<open>
  The body of \<^verbatim>\<open>;\<close>: \<^verbatim>\<open>_runtimeDictionary[_newWord] = {...}\<close> inserts or replaces the
  entry, then the compilation state is reset.
\<close>

definition end_definition :: "'d Privates \<Rightarrow> 'd Privates" where
  "end_definition s =
     s\<lparr>runtimeDictionary :=
         (runtimeDictionary s)(newWord s \<mapsto>
            \<lparr>description = ''user '' @ newWord s, params = [],
             eval_fn = fn_user (newDefinition s)\<rparr>),
       isCompiling := False, newWord := [], newDefinition := []\<rparr>"

text \<open>The bodies \<^verbatim>\<open>->{X}\<close>, \<^verbatim>\<open>->{Y}\<close>, \<^verbatim>\<open>->{Z}\<close>; \<open>k\<close> is the component set.\<close>

definition to_component :: "'d libc \<Rightarrow> nat \<Rightarrow> string \<Rightarrow> 'd Privates \<Rightarrow> 'd outcome" where
  "to_component L k rest s =
     (case stack_pop_as_double L s of
        Inl f \<Rightarrow> Inl f
      | Inr (v, s') \<Rightarrow>
          Inr (Pos 0, rest,
               stack_push (V_vec3 (Vec3 (if k = 0 then v else nan L)
                                        (if k = 1 then v else nan L)
                                        (if k = 2 then v else nan L))) s'))"

text \<open>
  \<open>call\<close> runs a stored lambda; \<open>user_eval\<close>, \<open>eval\<close>, \<open>runtime_eval\<close> and
  \<open>compiletime_eval\<close> are the member functions of the same names. A user word can
  name itself or a word defined later (the words are looked up when it runs), so the
  recursion through \<open>fn_user\<close> need not end: the fuel \<open>n\<close> bounds the nesting depth of
  user words, and a deeper call has the result \<open>Inl Out_of_fuel\<close>. \<open>user_eval\<close> gives
  every word a fresh empty \<^verbatim>\<open>rest\<close> and drops what \<open>eval\<close> returns.
\<close>

function (sequential) call :: "'d libc \<Rightarrow> nat \<Rightarrow> word_fn \<Rightarrow> string \<Rightarrow> string \<Rightarrow> 'd Privates \<Rightarrow> 'd outcome"
  and user_eval :: "'d libc \<Rightarrow> nat \<Rightarrow> string list \<Rightarrow> 'd Privates \<Rightarrow> fault + 'd Privates"
  and eval :: "'d libc \<Rightarrow> nat \<Rightarrow> string \<Rightarrow> string \<Rightarrow> 'd Privates \<Rightarrow> 'd outcome"
  and runtime_eval :: "'d libc \<Rightarrow> nat \<Rightarrow> string \<Rightarrow> string \<Rightarrow> 'd Privates \<Rightarrow> 'd outcome"
  and compiletime_eval :: "'d libc \<Rightarrow> nat \<Rightarrow> string \<Rightarrow> string \<Rightarrow> 'd Privates \<Rightarrow> 'd outcome"
where
  "call L n fn_nop word rest s = Inr (Pos 0, rest, s)"
| "call L n fn_print_stack word rest s = Inr (Pos 0, rest, print_stack s)"
| "call L n fn_string_literal word rest s = string_literal word rest s"
| "call L n fn_comment word rest s = parse_comment word rest s"
| "call L n fn_colon word rest s = Inr (Pos 0, rest, s\<lparr>isCompiling := True\<rparr>)"
| "call L n fn_dup word rest s =
     (if stack s = [] then Inl Empty_stack
      else Inr (Pos 0, rest, stack_push (last (stack s)) s))"
| "call L n fn_drop word rest s =
     (case stack_pop s of Inl f \<Rightarrow> Inl f | Inr (v, s') \<Rightarrow> Inr (Pos 0, rest, s'))"
| "call L n fn_to_x word rest s = to_component L 0 rest s"
| "call L n fn_to_y word rest s = to_component L 1 rest s"
| "call L n fn_to_z word rest s = to_component L 2 rest s"
| "call L n fn_end_definition word rest s = Inr (Pos 0, rest, end_definition s)"
| "call L 0 (fn_user wl) word rest s = Inl Out_of_fuel"
| "call L (Suc n) (fn_user wl) word rest s =
     (case user_eval L n wl s of Inl f \<Rightarrow> Inl f | Inr s' \<Rightarrow> Inr (Pos 0, rest, s'))"
| "user_eval L n [] s = Inr s"
| "user_eval L n (w # ws) s =
     (case eval L n w [] s of Inl f \<Rightarrow> Inl f | Inr (rv, rest', s') \<Rightarrow> user_eval L n ws s')"
| "eval L n word rest s =
     (if length word > 0 then
        (if isCompiling s then compiletime_eval L n word rest s
         else runtime_eval L n word rest s)
      else Inr (Pos 0, rest, s))"
| "runtime_eval L n word rest s =
     (if isdigit (first_byte word) then
        (if str_find word (CHR ''.'') \<noteq> npos
         then Inr (Pos 0, rest, stack_push (V_double (strtod L (c_str word))) s)
         else Inr (Pos 0, rest, stack_push (V_long (strtol (c_str word) 0)) s))
      else
        (case runtimeDictionary s word of
           Some we \<Rightarrow>
             (case validate_stack_for_word (word, we) s of
                (True, s') \<Rightarrow> call L n (eval_fn we) word rest s'
              | (False, s') \<Rightarrow>
                  Inr (Pos 0, rest,
                       print (Word_dump word we)
                         (print_stack
                           (print (Text (''parameters not right for '' @ quoted (c_str word) @
                                         [CHR 0x0A])) s'))))
         | None \<Rightarrow>
             Inr (Pos 0, rest,
                  print (Text (''not found '' @ quoted (c_str word) @ '' in dict'' @
                               [CHR 0x0A])) s)))"
| "compiletime_eval L n word rest s =
     (if newWord s = [] then Inr (Pos 0, rest, s\<lparr>newWord := word\<rparr>)
      else
        (case compiletimeDictionary s word of
           Some cw \<Rightarrow> call L n (eval_fn cw) word rest s
         | None \<Rightarrow>
             (if isdigit (first_byte word)
              then Inr (Pos 0, rest, s\<lparr>newDefinition := newDefinition s @ [word]\<rparr>)
              else
                (case runtimeDictionary s word of
                   Some rw \<Rightarrow> Inr (Pos 0, rest, s\<lparr>newDefinition := newDefinition s @ [word]\<rparr>)
                 | None \<Rightarrow>
                     Inr (npos, rest,
                          print (Text (''unrecognized word at compile time: '' @
                                       quoted (c_str word) @ [CHR 0x0A])) s)))))"
  by pat_completeness auto
termination
  by (relation "measures
        [\<lambda>x. case x of
                Inl (Inl (L, n, f, word, rest, s)) \<Rightarrow> n
              | Inl (Inr (L, n, wl, s)) \<Rightarrow> n
              | Inr (Inl (L, n, word, rest, s)) \<Rightarrow> n
              | Inr (Inr (Inl (L, n, word, rest, s))) \<Rightarrow> n
              | Inr (Inr (Inr (L, n, word, rest, s))) \<Rightarrow> n,
         \<lambda>x. case x of
                Inl (Inl c) \<Rightarrow> 0
              | Inl (Inr (L, n, wl, s)) \<Rightarrow> 3 + length wl
              | Inr (Inl e) \<Rightarrow> 2
              | Inr (Inr r) \<Rightarrow> 1]")
     auto

declare eval.simps [simp del] runtime_eval.simps [simp del] compiletime_eval.simps [simp del]

subsection \<open>The input line only gets shorter\<close>

lemma str_find_npos: "str_find buffer delim = npos \<longleftrightarrow> delim \<notin> set buffer"
  by (induction buffer) (auto split: size_type.splits)

lemma str_find_Pos:
  "str_find buffer delim = Pos p \<Longrightarrow>
     p < length buffer \<and> buffer ! p = delim \<and> (\<forall>i<p. buffer ! i \<noteq> delim)"
proof (induction buffer arbitrary: p)
  case Nil
  then show ?case by simp
next
  case (Cons c cs)
  show ?case
  proof (cases "c = delim")
    case True
    with Cons.prems show ?thesis by simp
  next
    case False
    with Cons.prems obtain q where q: "str_find cs delim = Pos q" "p = Suc q"
      by (auto split: size_type.splits)
    from Cons.IH [OF q(1)] False q(2) show ?thesis
      by (auto simp: nth_Cons split: nat.splits)
  qed
qed

lemma nextWord_length:
  "nextWord buffer delim = (p, word, buffer') \<Longrightarrow> length buffer' \<le> length buffer"
  by (auto simp: nextWord_def substr_def split: size_type.splits)

lemma nextWord_shorter:
  "nextWord buffer delim = (p, word, buffer') \<Longrightarrow> buffer \<noteq> [] \<Longrightarrow>
     length buffer' < length buffer"
  by (auto simp: nextWord_def substr_def split: size_type.splits dest: str_find_Pos)

lemma call_rest_length:
  "call L n f word rest s = Inr (rv, rest', s') \<Longrightarrow> length rest' \<le> length rest"
proof (cases f)
  case fn_string_literal
  assume "call L n f word rest s = Inr (rv, rest', s')"
  with fn_string_literal show ?thesis
    by (auto simp: string_literal_def split: prod.splits size_type.splits
             dest: nextWord_length)
next
  case fn_comment
  assume "call L n f word rest s = Inr (rv, rest', s')"
  with fn_comment show ?thesis
    by (auto simp: parse_comment_def split: prod.splits size_type.splits
             dest: nextWord_length)
next
  case (fn_user wl)
  assume "call L n f word rest s = Inr (rv, rest', s')"
  with fn_user show ?thesis
    by (cases n) (auto split: sum.splits)
qed (auto simp: to_component_def split: sum.splits if_splits prod.splits)

lemma eval_rest_length:
  "eval L n word rest s = Inr (rv, rest', s') \<Longrightarrow> length rest' \<le> length rest"
  by (auto simp: eval.simps runtime_eval.simps compiletime_eval.simps
           split: if_splits option.splits prod.splits bool.splits dest: call_rest_length)

lemma parse_step_shorter:
  "(p1, word, line') = nextWord line delim \<Longrightarrow> line \<noteq> [] \<Longrightarrow>
     eval L n word line' s = Inr (sv, line'', s') \<Longrightarrow> length line'' < length line"
  using nextWord_shorter [of line delim p1 word line']
        eval_rest_length [of L n word line' s sv line'' s']
  by simp

subsection \<open>parse\<close>

text \<open>
  \<^verbatim>\<open>RpnCncController::parse\<close>. The results of \<^verbatim>\<open>nextWord\<close> and of \<^verbatim>\<open>eval\<close> are stored
  in locals that are never read; the loop runs until the line is empty, and the function
  returns \<^verbatim>\<open>rv\<close>, which is only ever \<^verbatim>\<open>true\<close>. The line is passed by reference and
  is empty when the function returns.
\<close>

function parse :: "'d libc \<Rightarrow> nat \<Rightarrow> string \<Rightarrow> 'd Privates \<Rightarrow> fault + bool \<times> 'd Privates" where
  "parse L n line s =
     (if length line > 0 then
        (case nextWord line (CHR '' '') of
           (p1, word, line') \<Rightarrow>
             (case eval L n word line' s of
                Inl f \<Rightarrow> Inl f
              | Inr (sv, line'', s') \<Rightarrow> parse L n line'' s'))
      else Inr (True, s))"
  by pat_completeness auto
termination
  by (relation "measure (\<lambda>(L, n, line, s). length line)")
     (auto dest: parse_step_shorter)

declare parse.simps [simp del]

subsection \<open>The dictionaries of the constructor\<close>

abbreviation param :: "string \<Rightarrow> datatype_t \<Rightarrow> param_t" where
  "param n t \<equiv> \<lparr>name = n, type = t\<rparr>"

abbreviation entry :: "string \<Rightarrow> param_t list list \<Rightarrow> word_fn \<Rightarrow> word_t" where
  "entry d ps f \<equiv> \<lparr>description = d, params = ps, eval_fn = f\<rparr>"

text \<open>
  The initializer list of \<^verbatim>\<open>_runtimeDictionary\<close>, in the order of the source. The key
  \<^verbatim>\<open>"*"\<close> stands twice: before the entry described as Multiply and before the one
  described as Divide; no entry has the key \<^verbatim>\<open>"/"\<close>.
\<close>

definition runtime_words :: "(string \<times> word_t) list" where
  "runtime_words =
    [
     (''ABS'', entry ''Absolute Value (x -- |x|)''
        [[param ''x'' st_number], [param ''v'' st_vec3]] fn_nop),
     (''COS'', entry ''Cosine (angle -- cos(angle))''
        [[param ''angle'' st_number]] fn_nop),
     (''ACOS'', entry ''Arc-Cosine (x -- acos(x))''
        [[param ''x'' st_number]] fn_nop),
     (''SIN'', entry ''Sine (angle -- sin(angle))''
        [[param ''angle'' st_number]] fn_nop),
     (''ASIN'', entry ''Arc Sine (x -- asin(x))''
        [[param ''x'' st_number]] fn_nop),
     (''TAN'', entry ''Tangent (angle -- tan(angle))''
        [[param ''angle'' st_number]] fn_nop),
     (''ATAN'', entry ''Arc-Tangent (x -- atan(x))''
        [[param ''x'' st_number]] fn_nop),
     (''ATAN2'', entry ''Arc-Tangent of two variables (y x -- atan2(y,x))''
        [[param ''y'' st_number, param ''x'' st_number]] fn_nop),
     (''NEG'', entry ''Negate (x -- -x)''
        [[param ''x'' st_number]] fn_nop),
     (''SQRT'', entry ''Square Root (x -- sqrt(x) )''
        [[param ''x'' st_number]] fn_nop),
     (''SQ'', entry ''Square (x -- x^2)''
        [[param ''x'' st_number]] fn_nop),
     (''POW'', entry ''Exponentation (x y -- x^y)''
        [[param ''x'' st_number, param ''y'' st_number]] fn_nop),
     (''INV'', entry ''Invert (x -- 1/x))''
        [[param ''x'' st_number]] fn_nop),
     (''PI'', entry ''The constant PI''
        [[]] fn_nop),
     (''+'', entry ''Addition (x y -- x+y)''
        [[param ''x'' st_number, param ''y'' st_number], [param ''vx'' st_vec3, param ''vx'' st_vec3]] fn_nop),
     (''-'', entry ''Subtract (x y -- y-x)''
        [[param ''x'' st_number, param ''y'' st_number], [param ''vx'' st_vec3, param ''vy'' st_vec3]] fn_nop),
     (''*'', entry ''Multiply (x y -- x*y)''
        [[param ''x'' st_number, param ''y'' st_number]] fn_nop),
     (''*'', entry ''Divide (x y -- y/x)''
        [[param ''x'' st_number, param ''y'' st_number]] fn_nop),
     (''EVAL'', entry ''Evaluate string as an algebraic expression''
        [[param ''expr'' st_string]] fn_nop),
     (''.S'', entry ''print stack''
        [[]] fn_print_stack),
     ((''.'' @ [CHR 0x22]), entry ''String literal''
        [[]] fn_string_literal),
     (''('', entry ''Commment''
        [[]] fn_comment),
     ('':'', entry ''Define new word''
        [[]] fn_colon),
     (''STO'', entry ''store variable''
        [[param ''val'' st_number, param ''var'' st_string]] fn_nop),
     (''CONCAT'', entry ''String concatenation''
        [[param ''s1'' st_string, param ''a2'' st_any], [param ''a1'' st_any, param ''s2'' st_string]] fn_nop),
     (''DUP'', entry ''Duplicate top of stack''
        [[param ''s1'' st_any]] fn_dup),
     (''DROP'', entry ''Drop top of stack''
        [[param ''s1'' st_any]] fn_drop),
     (''OVER'', entry ''Copy second stack item to top''
        [[param ''s1'' st_any, param ''s2'' st_any]] fn_nop),
     (''ROLL+'', entry ''Roll stack so that top goes to the bottom ( t1 t2 ... b -- t2 ... b t1 )''
        [[]] fn_nop),
     (''ROLL-'', entry ''Roll stack so that bottom goes to the top ( t ... b2 b1 -- b1 t ... b2 )''
        [[]] fn_nop),
     (''->STR'', entry ''Convert top of stack to a string ( val -- str )''
        [[param ''v1'' st_any]] fn_nop),
     (''STR->'', entry ''Parse string at top of stack to another type ( str -- val )''
        [[param ''v1'' st_string]] fn_nop),
     (''->{X}'', entry ''Convert value on top of stack to X component of vec3 ( x -- {x,,} )''
        [[param ''X'' st_number]] fn_to_x),
     (''->{Y}'', entry ''Convert value on top of stack to Y component of vec3 ( y -- {,y,} )''
        [[param ''Y'' st_number]] fn_to_y),
     (''->{Z}'', entry ''Convert value on top of stack to Z component of vec3 ( z -- {,,z} )''
        [[param ''Z'' st_number]] fn_to_z),
     (''{}->'', entry ''Convert vector to components on stack ( v -- x y z )''
        [[param ''v1'' st_vec3]] fn_nop),
     (''MPOS->'', entry ''Push Machine Position to the stack. ( -- mpos )''
        [[]] fn_nop),
     (''WPOS->'', entry ''Push Work Position to the stack. ( -- wpos )''
        [[]] fn_nop),
     (''->WPOS'', entry ''Set Work Position ( wpos -- )''
        [[param ''newpos'' st_vec3]] fn_nop),
     (''SPEED->'', entry ''Push Spindle Speed to the stack. ( -- speed )''
        [[]] fn_nop),
     (''->SPEED'', entry ''Set Spindle Speed ( speed -- )''
        [[param ''speed'' st_number]] fn_nop),
     (''FEED->'', entry ''Push jog feed rate to the stack. ( -- feed )''
        [[]] fn_nop),
     (''->FEED'', entry ''Set jog feed rate ( feed -- )''
        [[param ''feed'' st_number]] fn_nop),
     (''JOG-R'', entry ''Jog to relative position ( pos -- )''
        [[param ''offset'' st_vec3]] fn_nop),
     (''JOG-WA'', entry ''Jog to absolute work position ( wpos -- )''
        [[param ''wpos'' st_vec3]] fn_nop),
     (''JOG-MA'', entry ''Jog to absolute machine position ( mpos -- )''
        [[param ''mpos'' st_vec3]] fn_nop),
     (''PROBE'', entry ''Probe machine (target feed -- )''
        [[param ''target'' st_vec3, param ''feed'' st_number]] fn_nop),
     (''MODAL-STATE->'', entry (''Push machine'' @ [CHR 0x27] @ ''s modal state on the stack ( -- state )'')
        [[]] fn_nop),
     (''->MODAL-STATE'', entry ''Send modal state to the machine ( state -- )''
        [[param ''state'' st_string]] fn_nop),
     (''SEND'', entry ''Send command''
        [[param ''g-code'' st_string]] fn_nop)
    ]"

definition compiletime_words :: "(string \<times> word_t) list" where
  "compiletime_words =
    [
     ('';'', entry ''End Definition''
        [[]] fn_end_definition),
     (''('', entry ''Commment''
        [[]] fn_comment)
    ]"

text \<open>
  A \<^verbatim>\<open>std::map\<close> built from an initializer list inserts the pairs one by one, and an
  insertion does not replace an entry whose key is already there: the first pair of a
  key stays, which is what \<open>map_of\<close> looks up.
\<close>

definition new_Privates :: "'d Privates" where
  "new_Privates =
     \<lparr>runtimeDictionary = map_of runtime_words,
      compiletimeDictionary = map_of compiletime_words,
      isCompiling = False, newWord = [], newDefinition = [],
      stack = [], printed = []\<rparr>"

subsection \<open>The validator in the words of the specification\<close>

text \<open>
  The matching rule in the words of the specification: Integer, Double, String and Vec3
  match only their own tag, Number matches Integer or Double, Any matches every tag.
\<close>

fun tag_matches :: "datatype_t \<Rightarrow> 'd stacktype_t \<Rightarrow> bool" where
  "tag_matches st_double v = (case v of V_double _ \<Rightarrow> True | _ \<Rightarrow> False)"
| "tag_matches st_integer v = (case v of V_long _ \<Rightarrow> True | _ \<Rightarrow> False)"
| "tag_matches st_string v = (case v of V_string _ \<Rightarrow> True | _ \<Rightarrow> False)"
| "tag_matches st_vec3 v = (case v of V_vec3 _ \<Rightarrow> True | _ \<Rightarrow> False)"
| "tag_matches st_number v = (case v of V_double _ \<Rightarrow> True | V_long _ \<Rightarrow> True | _ \<Rightarrow> False)"
| "tag_matches st_any v = True"

text \<open>The value at stack position \<open>i\<close> counted from the top; position 1 is the top.\<close>

definition at_position :: "'d stacktype_t list \<Rightarrow> nat \<Rightarrow> 'd stacktype_t" where
  "at_position st i = st ! (length st - i)"

text \<open>
  The condition of the specification for a signature \<open>[t\<^sub>1..t\<^sub>k]\<close>: depth at least
  \<open>k\<close>, and \<open>t\<^sub>i\<close> matches the value at position \<open>i\<close> from the top.
\<close>

definition matches_top_down :: "datatype_t list \<Rightarrow> 'd stacktype_t list \<Rightarrow> bool" where
  "matches_top_down ts st =
     (length ts \<le> length st \<and>
      list_all (\<lambda>i. tag_matches (ts ! (i - 1)) (at_position st i)) [1..<Suc (length ts)])"

text \<open>
  What the code checks: \<open>t\<^sub>i\<close> against the value at position \<open>k + 1 - i\<close> from the
  top, so that the last type of the signature is the one of the topmost value.
\<close>

definition matches_bottom_up :: "datatype_t list \<Rightarrow> 'd stacktype_t list \<Rightarrow> bool" where
  "matches_bottom_up ts st =
     (length ts \<le> length st \<and>
      list_all (\<lambda>i. tag_matches (ts ! (i - 1)) (at_position st (length ts + 1 - i)))
        [1..<Suc (length ts)])"

subsection \<open>Base detection in the words of the specification\<close>

text \<open>A leading \<^verbatim>\<open>0x\<close> (or \<^verbatim>\<open>0X\<close>, which C reads the same way).\<close>

definition leading_0x :: "string \<Rightarrow> bool" where
  "leading_0x s = (take 2 s = ''0x'' \<or> take 2 s = ''0X'')"

subsection \<open>The body of a user word in the words of the specification\<close>

text \<open>
  For each stored token, in order, invoke the evaluator on it with an empty remainder,
  from the state the token before left; a fault ends the run.
\<close>

definition reinterpret :: "'d libc \<Rightarrow> nat \<Rightarrow> string list \<Rightarrow> 'd Privates \<Rightarrow> fault + 'd Privates" where
  "reinterpret L n wl s =
     foldl (\<lambda>acc w. case acc of
                       Inl f \<Rightarrow> Inl f
                     | Inr st \<Rightarrow> (case eval L n w [] st of
                                    Inl f \<Rightarrow> Inl f
                                  | Inr (rv, rest', st') \<Rightarrow> Inr st'))
           (Inr s) wl"

subsection \<open>A C library for concrete runs\<close>

text \<open>A stand-in for the C library's floating point, for the concrete runs below.\<close>

definition test_libc :: "int libc" where
  "test_libc = \<lparr>to_double = floor, strtod_other = (\<lambda>s. 0), nan = - 1, of_long = sint\<rparr>"

text \<open>The same with exact doubles: every rational is a double, and no rounding.\<close>

definition exact_libc :: "rat libc" where
  "exact_libc =
     \<lparr>to_double = (\<lambda>q. q), strtod_other = (\<lambda>s. 0), nan = - 1,
      of_long = (\<lambda>i. of_int (sint i))\<rparr>"

section \<open>Properties\<close>

subsection \<open>Tokenizer\<close>

text \<open>
  C7. For every buffer and delimiter: if the delimiter occurs, and \<open>p\<close> is the position
  of its first occurrence, \<open>nextWord\<close> returns \<open>p\<close>, the word is the characters
  before \<open>p\<close> and the remaining buffer is the characters after position \<open>p\<close>; if
  the delimiter does not occur, the word is the whole buffer, the remaining buffer is
  empty and the result is the sentinel \<open>npos\<close>.
\<close>

theorem nextWord_first_occurrence:
  "(delim \<in> set buffer \<longrightarrow>
      (\<exists>p. p < length buffer \<and> buffer ! p = delim \<and> (\<forall>i<p. buffer ! i \<noteq> delim) \<and>
           nextWord buffer delim = (Pos p, take p buffer, drop (Suc p) buffer))) \<and>
   (delim \<notin> set buffer \<longrightarrow> nextWord buffer delim = (npos, buffer, []))"
proof (cases "str_find buffer delim")
  case (Pos p)
  then have "delim \<in> set buffer"
    using str_find_npos [of buffer delim] by auto
  moreover have "nextWord buffer delim = (Pos p, take p buffer, drop (Suc p) buffer)"
    using Pos by (simp add: nextWord_def substr_def)
  ultimately show ?thesis
    using str_find_Pos [OF Pos] by blast
next
  case npos
  then have "delim \<notin> set buffer"
    by (simp add: str_find_npos)
  then show ?thesis
    using npos by (simp add: nextWord_def)
qed

theorem nextWord_first_occurrence_witness:
  "nextWord ''ab cd e'' (CHR '' '') = (Pos 2, ''ab'', ''cd e'') \<and>
   nextWord ''abcd'' (CHR '' '') = (npos, ''abcd'', [])"
proof -
  have "CHR '' '' \<in> set ''ab cd e''" and "CHR '' '' \<notin> set ''abcd''"
    by simp_all
  with nextWord_first_occurrence [of "CHR '' ''" "''ab cd e''"]
       nextWord_first_occurrence [of "CHR '' ''" "''abcd''"]
  show ?thesis
    by (simp add: nextWord_def substr_def)
qed

subsection \<open>Stack\<close>

text \<open>
  C8. For every value \<open>v\<close> of every variant, pushing \<open>v\<close> and then popping returns
  exactly \<open>v\<close> and leaves the state, and so the stack, as it was before the push.
\<close>

theorem stack_push_pop: "stack_pop (stack_push v s) = Inr (v, s)"
  by (simp add: stack_pop_def stack_push_def)

subsection \<open>Empty words\<close>

text \<open>
  C9. For every interpreter state, evaluating the empty word returns 0 and leaves the
  whole state unchanged: the stack, both dictionaries, the compilation state and the
  remaining input.
\<close>

theorem eval_empty_word: "eval L n [] rest s = Inr (Pos 0, rest, s)"
  by (simp add: eval.simps)

subsection \<open>The name of a definition\<close>

text \<open>
  C10. In compile mode, while \<open>newWord\<close> is empty, a non-empty token becomes the name
  of the definition whatever it is: no dictionary is consulted, nothing is executed or
  pushed, and only \<open>newWord\<close> changes.
\<close>

theorem compile_adopts_name:
  "isCompiling s \<Longrightarrow> newWord s = [] \<Longrightarrow> word \<noteq> [] \<Longrightarrow>
     eval L n word rest s = Inr (Pos 0, rest, s\<lparr>newWord := word\<rparr>)"
  by (simp add: eval.simps compiletime_eval.simps)

theorem compile_adopts_name_witness:
  "eval test_libc 0 '';'' [] (new_Privates\<lparr>isCompiling := True\<rparr>) =
     Inr (Pos 0, [], new_Privates\<lparr>isCompiling := True, newWord := '';''\<rparr>) \<and>
   eval test_libc 0 ''('' ''a )'' (new_Privates\<lparr>isCompiling := True\<rparr>) =
     Inr (Pos 0, ''a )'', new_Privates\<lparr>isCompiling := True, newWord := ''(''\<rparr>) \<and>
   eval test_libc 0 ''12'' [] (new_Privates\<lparr>isCompiling := True\<rparr>) =
     Inr (Pos 0, [], new_Privates\<lparr>isCompiling := True, newWord := ''12''\<rparr>)"
  using compile_adopts_name [of "new_Privates\<lparr>isCompiling := True\<rparr>" "'';''" test_libc 0 "[]"]
        compile_adopts_name [of "new_Privates\<lparr>isCompiling := True\<rparr>" "''(''" test_libc 0 "''a )''"]
        compile_adopts_name [of "new_Privates\<lparr>isCompiling := True\<rparr>" "''12''" test_libc 0 "[]"]
  by (simp add: new_Privates_def)

subsection \<open>Validator\<close>

lemma datatype_eq_index: "datatype_eq dt (index v) = tag_matches dt v"
  by (cases dt; cases v) simp_all

lemma params_match_iff:
  "params_match p tv i pred \<longleftrightarrow>
     pred \<and> (\<forall>j. i \<le> j \<and> j < length p \<longrightarrow> datatype_eq (type (p ! j)) (tv ! j))"
proof (induction p tv i pred rule: params_match.induct)
  case (1 p tv i pred)
  show ?case
  proof (cases "i < length p \<and> pred")
    case True
    have "(\<forall>j. i \<le> j \<and> j < length p \<longrightarrow> datatype_eq (type (p ! j)) (tv ! j)) \<longleftrightarrow>
          datatype_eq (type (p ! i)) (tv ! i) \<and>
          (\<forall>j. i + 1 \<le> j \<and> j < length p \<longrightarrow> datatype_eq (type (p ! j)) (tv ! j))"
    proof (intro iffI conjI allI impI)
      fix j
      assume h: "datatype_eq (type (p ! i)) (tv ! i) \<and>
          (\<forall>j. i + 1 \<le> j \<and> j < length p \<longrightarrow> datatype_eq (type (p ! j)) (tv ! j))"
        and j: "i \<le> j \<and> j < length p"
      show "datatype_eq (type (p ! j)) (tv ! j)"
      proof (cases "j = i")
        case True
        with h show ?thesis by simp
      next
        case False
        with j have "i + 1 \<le> j \<and> j < length p" by arith
        with h show ?thesis by blast
      qed
    qed (use True in simp_all)
    with True "1.IH" show ?thesis
      by (subst params_match.simps) simp
  next
    case False
    then show ?thesis
      by (subst params_match.simps) auto
  qed
qed

lemma top_types_nth:
  "k \<le> length st \<Longrightarrow> j < k \<Longrightarrow>
     map index (drop (length st - k) st) ! j = index (st ! (length st - k + j))"
  by simp

lemma validate_single:
  "fst (validate_stack_for_word (w, \<lparr>description = d, params = [p], eval_fn = f\<rparr>) s) \<longleftrightarrow>
     matches_bottom_up (map type p) (stack s)"
proof (cases "p = []")
  case True
  then show ?thesis
    by (simp add: validate_stack_for_word_def matches_bottom_up_def)
next
  case False
  show ?thesis
  proof (cases "length (stack s) < length p")
    case True
    with False show ?thesis
      by (simp add: validate_stack_for_word_def matches_bottom_up_def top_of_stack_types_def)
  next
    case ge: False
    define k where "k = length p"
    define n where "n = length (stack s)"
    define tv where "tv = map index (drop (n - k) (stack s))"
    have kn: "k \<le> n" using ge by (simp add: k_def n_def)
    have tv: "tv ! j = index (stack s ! (n - k + j))" if "j < k" for j
      unfolding tv_def n_def using top_types_nth [of k "stack s" j] kn that
      by (simp add: n_def)
    have pos: "at_position (stack s) (k + 1 - i) = stack s ! (n - k + (i - 1))"
      if "1 \<le> i" "i \<le> k" for i
    proof -
      have "n - (k + 1 - i) = n - k + (i - 1)"
        using that kn by arith
      then show ?thesis
        unfolding at_position_def n_def [symmetric] by (rule arg_cong)
    qed
    have ty: "map type p ! j = type (p ! j)" if "j < k" for j
      using that by (simp add: k_def)
    have "(\<forall>j. 0 \<le> j \<and> j < k \<longrightarrow> datatype_eq (type (p ! j)) (tv ! j)) \<longleftrightarrow>
          (\<forall>i\<in>set [1..<Suc k]. tag_matches (map type p ! (i - 1)) (at_position (stack s) (k + 1 - i)))"
      (is "?A \<longleftrightarrow> ?B")
    proof
      assume a: ?A
      show ?B
      proof
        fix i assume "i \<in> set [1..<Suc k]"
        then have i: "1 \<le> i" "i \<le> k" by auto
        then have lt: "i - 1 < k" by arith
        with a have "datatype_eq (type (p ! (i - 1))) (tv ! (i - 1))"
          by blast
        then have "tag_matches (type (p ! (i - 1))) (stack s ! (n - k + (i - 1)))"
          by (simp only: tv [OF lt] datatype_eq_index)
        then show "tag_matches (map type p ! (i - 1)) (at_position (stack s) (k + 1 - i))"
          by (simp only: pos [OF i] ty [OF lt])
      qed
    next
      assume b: ?B
      show ?A
      proof (intro allI impI)
        fix j assume "0 \<le> j \<and> j < k"
        then have j: "j < k" by simp
        then have "Suc j \<in> set [1..<Suc k]" by auto
        with b have "tag_matches (map type p ! (Suc j - 1)) (at_position (stack s) (k + 1 - Suc j))"
          by blast
        moreover have "1 \<le> Suc j" "Suc j \<le> k" "Suc j - 1 = j"
          using j by simp_all
        ultimately have "tag_matches (type (p ! j)) (stack s ! (n - k + j))"
          using pos [of "Suc j"] ty [OF j] by simp
        then show "datatype_eq (type (p ! j)) (tv ! j)"
          by (simp only: tv [OF j] datatype_eq_index)
      qed
    qed
    moreover have "fst (validate_stack_for_word (w, \<lparr>description = d, params = [p], eval_fn = f\<rparr>) s)
        \<longleftrightarrow> params_match p tv 0 True"
    proof -
      have "length tv = k"
        using kn by (simp add: tv_def n_def)
      with False have "tv \<noteq> []"
        by (auto simp: k_def)
      moreover have "top_of_stack_types (length p) s = (tv, s)"
        using ge by (simp add: top_of_stack_types_def tv_def k_def n_def)
      ultimately show ?thesis
        using False by (simp add: validate_stack_for_word_def)
    qed
    moreover have "matches_bottom_up (map type p) (stack s) \<longleftrightarrow>
        (\<forall>i\<in>set [1..<Suc k]. tag_matches (map type p ! (i - 1)) (at_position (stack s) (k + 1 - i)))"
      using kn by (simp add: matches_bottom_up_def list_all_iff k_def n_def)
    ultimately show ?thesis
      by (simp add: params_match_iff k_def)
  qed
qed

lemma validate_loop_printed:
  "\<exists>out. snd (validate_loop ps rv s) = s\<lparr>printed := printed s @ out\<rparr>"
proof (induction ps arbitrary: rv s)
  case Nil
  have "s = s\<lparr>printed := printed s @ []\<rparr>" by simp
  then show ?case by (metis validate_loop.simps(1) snd_conv)
next
  case (Cons p ps)
  show ?case
  proof (cases rv)
    case True
    have "s = s\<lparr>printed := printed s @ []\<rparr>" by simp
    with True show ?thesis by (metis validate_loop.simps(2) snd_conv)
  next
    case False
    obtain tv s' where t: "top_of_stack_types (length p) s = (tv, s')"
      by (cases "top_of_stack_types (length p) s")
    have "\<exists>o1. s' = s\<lparr>printed := printed s @ o1\<rparr>"
    proof (cases "length (stack s) < length p")
      case True
      with t show ?thesis
        by (auto simp: top_of_stack_types_def print_def)
    next
      case False
      with t have "s' = s\<lparr>printed := printed s @ []\<rparr>"
        by (simp add: top_of_stack_types_def)
      then show ?thesis by blast
    qed
    then obtain o1 where o1: "s' = s\<lparr>printed := printed s @ o1\<rparr>"
      by blast
    define rv' where "rv' = (if tv \<noteq> [] then params_match p tv 0 True else rv)"
    from Cons.IH [of rv' s']
    obtain o2 where o2: "snd (validate_loop ps rv' s') = s'\<lparr>printed := printed s' @ o2\<rparr>"
      by blast
    have "validate_loop (p # ps) rv s = validate_loop ps rv' s'"
      using False t by (simp add: rv'_def)
    with o1 o2 have "snd (validate_loop (p # ps) rv s) = s\<lparr>printed := printed s @ (o1 @ o2)\<rparr>"
      by simp
    then show ?thesis by blast
  qed
qed

lemma validate_printed:
  "\<exists>out. snd (validate_stack_for_word de s) = s\<lparr>printed := printed s @ out\<rparr>"
  unfolding validate_stack_for_word_def by (rule validate_loop_printed)

lemma validate_single_success:
  assumes "fst (validate_stack_for_word (w, \<lparr>description = d, params = [p], eval_fn = f\<rparr>) s)"
  shows "snd (validate_stack_for_word (w, \<lparr>description = d, params = [p], eval_fn = f\<rparr>) s) = s"
proof (cases "p = []")
  case True
  then show ?thesis by (simp add: validate_stack_for_word_def)
next
  case False
  show ?thesis
  proof (cases "length (stack s) < length p")
    case True
    with False assms show ?thesis
      by (simp add: validate_stack_for_word_def top_of_stack_types_def)
  next
    case False
    then show ?thesis
      using \<open>p \<noteq> []\<close> by (simp add: validate_stack_for_word_def top_of_stack_types_def)
  qed
qed

text \<open>
  C3, as the code has it. For a word whose definition carries one signature
  \<open>[t\<^sub>1..t\<^sub>k]\<close>, validation succeeds if and only if the stack depth is at least
  \<open>k\<close> and, for each \<open>i\<close> in \<open>1..k\<close>, \<open>t\<^sub>i\<close> matches the value at position
  \<open>k + 1 - i\<close> counted from the top: the signature lists the values from the deepest
  to the topmost, as the stack comments of the words do. Integer, Double, String and Vec3
  match only their own tag, Number matches Integer or Double, Any matches every tag.
  The body of the word runs exactly when validation succeeds; otherwise the evaluator
  returns 0 and only prints.
\<close>

theorem strict_signature_bottom_up:
  "params we = [p] \<Longrightarrow> runtimeDictionary s w = Some we \<Longrightarrow> \<not> isdigit (first_byte w) \<Longrightarrow>
     (fst (validate_stack_for_word (w, we) s) \<longleftrightarrow> matches_bottom_up (map type p) (stack s)) \<and>
     (matches_bottom_up (map type p) (stack s) \<longrightarrow>
        runtime_eval L n w rest s = call L n (eval_fn we) w rest s) \<and>
     (\<not> matches_bottom_up (map type p) (stack s) \<longrightarrow>
        (\<exists>out. runtime_eval L n w rest s = Inr (Pos 0, rest, s\<lparr>printed := printed s @ out\<rparr>)))"
proof -
  assume p: "params we = [p]" and we: "runtimeDictionary s w = Some we"
    and nd: "\<not> isdigit (first_byte w)"
  from p have weq: "we = \<lparr>description = description we, params = [p], eval_fn = eval_fn we\<rparr>"
    by simp
  have iff: "fst (validate_stack_for_word (w, we) s) \<longleftrightarrow> matches_bottom_up (map type p) (stack s)"
    by (subst weq) (rule validate_single)
  have ok: "runtime_eval L n w rest s = call L n (eval_fn we) w rest s"
    if "matches_bottom_up (map type p) (stack s)"
  proof -
    from that iff have v: "fst (validate_stack_for_word (w, we) s)" by simp
    then have "snd (validate_stack_for_word (w, we) s) = s"
      using validate_single_success [of w "description we" p "eval_fn we" s] weq by simp
    with v have "validate_stack_for_word (w, we) s = (True, s)"
      by (cases "validate_stack_for_word (w, we) s") simp
    with we nd show ?thesis
      by (simp add: runtime_eval.simps)
  qed
  have bad: "\<exists>out. runtime_eval L n w rest s = Inr (Pos 0, rest, s\<lparr>printed := printed s @ out\<rparr>)"
    if "\<not> matches_bottom_up (map type p) (stack s)"
  proof -
    from that iff have v: "\<not> fst (validate_stack_for_word (w, we) s)" by simp
    obtain o1 where "snd (validate_stack_for_word (w, we) s) = s\<lparr>printed := printed s @ o1\<rparr>"
      using validate_printed by blast
    with v have "validate_stack_for_word (w, we) s = (False, s\<lparr>printed := printed s @ o1\<rparr>)"
      by (cases "validate_stack_for_word (w, we) s") simp
    with we nd have "runtime_eval L n w rest s =
        Inr (Pos 0, rest, s\<lparr>printed := printed s @ (o1 @
          [Text (''parameters not right for '' @ quoted (c_str w) @ [CHR 0x0A]),
           Stack_dump (stack s), Word_dump w we])\<rparr>)"
      by (simp add: runtime_eval.simps print_def print_stack_def)
    then show ?thesis by blast
  qed
  from iff ok bad show ?thesis by blast
qed

theorem strict_signature_bottom_up_witness:
  "runtimeDictionary (new_Privates :: int Privates) ''STO'' =
     Some (entry ''store variable'' [[param ''val'' st_number, param ''var'' st_string]] fn_nop) \<and>
   fst (validate_stack_for_word
          (''STO'', entry ''store variable'' [[param ''val'' st_number, param ''var'' st_string]] fn_nop)
          ((new_Privates :: int Privates)\<lparr>stack := [V_long 1, V_string ''x'']\<rparr>)) \<and>
   runtime_eval test_libc 0 ''STO'' [] (new_Privates\<lparr>stack := [V_long 1, V_string ''x'']\<rparr>) =
     Inr (Pos 0, [], new_Privates\<lparr>stack := [V_long 1, V_string ''x'']\<rparr>) \<and>
   \<not> fst (validate_stack_for_word
          (''STO'', entry ''store variable'' [[param ''val'' st_number, param ''var'' st_string]] fn_nop)
          ((new_Privates :: int Privates)\<lparr>stack := [V_string ''x'', V_long 1]\<rparr>))"
proof -
  let ?we = "entry ''store variable'' [[param ''val'' st_number, param ''var'' st_string]] fn_nop"
  let ?s1 = "(new_Privates :: int Privates)\<lparr>stack := [V_long 1, V_string ''x'']\<rparr>"
  let ?s2 = "(new_Privates :: int Privates)\<lparr>stack := [V_string ''x'', V_long 1]\<rparr>"
  have p: "params ?we = [[param ''val'' st_number, param ''var'' st_string]]"
    by simp
  have d: "runtimeDictionary (new_Privates :: int Privates) ''STO'' = Some ?we"
    by (simp add: new_Privates_def runtime_words_def)
  then have d1: "runtimeDictionary ?s1 ''STO'' = Some ?we" and d2: "runtimeDictionary ?s2 ''STO'' = Some ?we"
    by simp_all
  have nd: "\<not> isdigit (first_byte ''STO'')"
    by (simp add: isdigit_def first_byte_def)
  have m1: "matches_bottom_up (map type [param ''val'' st_number, param ''var'' st_string]) (stack ?s1)"
    by (simp add: matches_bottom_up_def at_position_def)
  have m2: "\<not> matches_bottom_up (map type [param ''val'' st_number, param ''var'' st_string]) (stack ?s2)"
    by (simp add: matches_bottom_up_def at_position_def)
  from strict_signature_bottom_up [OF p d1 nd, of test_libc 0 "[]"] m1
       strict_signature_bottom_up [OF p d2 nd, of test_libc 0 "[]"] m2 d
  show ?thesis by simp
qed

text \<open>
  The claim as the specification states it, with \<open>t\<^sub>i\<close> matched against position
  \<open>i\<close> from the top, fails for the word \<^verbatim>\<open>STO\<close>, whose signature is (number,
  string): the code accepts a stack with the string on top of the number, where the
  top-down reading asks for a number on top, and rejects the stack with the number on
  top of the string, which the top-down reading accepts.
\<close>

theorem strict_signature_top_down_counterexample:
  "runtimeDictionary (new_Privates :: int Privates) ''STO'' =
     Some (entry ''store variable'' [[param ''val'' st_number, param ''var'' st_string]] fn_nop) \<and>
   fst (validate_stack_for_word
          (''STO'', entry ''store variable'' [[param ''val'' st_number, param ''var'' st_string]] fn_nop)
          ((new_Privates :: int Privates)\<lparr>stack := [V_long 1, V_string ''x'']\<rparr>)) \<and>
   \<not> matches_top_down [st_number, st_string] [V_long 1, V_string ''x'' :: int stacktype_t] \<and>
   \<not> fst (validate_stack_for_word
          (''STO'', entry ''store variable'' [[param ''val'' st_number, param ''var'' st_string]] fn_nop)
          ((new_Privates :: int Privates)\<lparr>stack := [V_string ''x'', V_long 1]\<rparr>)) \<and>
   matches_top_down [st_number, st_string] [V_string ''x'', V_long 1 :: int stacktype_t]"
proof -
  have "runtimeDictionary (new_Privates :: int Privates) ''STO'' =
     Some (entry ''store variable'' [[param ''val'' st_number, param ''var'' st_string]] fn_nop)"
    by (simp add: new_Privates_def runtime_words_def)
  moreover have "fst (validate_stack_for_word
          (''STO'', entry ''store variable'' [[param ''val'' st_number, param ''var'' st_string]] fn_nop)
          ((new_Privates :: int Privates)\<lparr>stack := [V_long 1, V_string ''x'']\<rparr>))"
    by (simp add: validate_stack_for_word_def top_of_stack_types_def params_match.simps)
  moreover have "\<not> fst (validate_stack_for_word
          (''STO'', entry ''store variable'' [[param ''val'' st_number, param ''var'' st_string]] fn_nop)
          ((new_Privates :: int Privates)\<lparr>stack := [V_string ''x'', V_long 1]\<rparr>))"
    by (simp add: validate_stack_for_word_def top_of_stack_types_def params_match.simps)
  moreover have "\<not> matches_top_down [st_number, st_string] [V_long 1, V_string ''x'' :: int stacktype_t]"
    by (simp add: matches_top_down_def at_position_def)
  moreover have "matches_top_down [st_number, st_string] [V_string ''x'', V_long 1 :: int stacktype_t]"
    by (simp add: matches_top_down_def at_position_def)
  ultimately show ?thesis by blast
qed

subsection \<open>Numeric literals\<close>

lemma isdigit_first_byte:
  "isdigit (first_byte w) \<Longrightarrow> \<exists>c cs. w = c # cs \<and> isdigit c"
  by (cases w) (simp_all add: first_byte_def isdigit_def)

lemma isdigit_not_space_sign:
  "isdigit c \<Longrightarrow> \<not> isspace c \<and> c \<noteq> CHR ''-'' \<and> c \<noteq> CHR ''+'' \<and> c \<noteq> CHR 0x00"
  by (auto simp: isdigit_def isspace_def)

lemma c_str_digit:
  "isdigit (first_byte w) \<Longrightarrow> first_byte (c_str w) = first_byte w"
  by (cases w) (auto simp: first_byte_def c_str_def isdigit_def)

lemma hex_prefix_leading: "hex_prefix w \<Longrightarrow> leading_0x w"
  by (auto simp: hex_prefix_def leading_0x_def split: list.splits)

lemma leading_0x_no_hex:
  assumes "leading_0x w" and "\<not> hex_prefix w"
  shows "strtol_digits 8 w 0 = 0 \<and> strtol_digits 16 (drop 2 w) 0 = 0"
proof -
  from assms(1) obtain c1 r where w: "w = CHR ''0'' # c1 # r" and c1: "c1 = CHR ''x'' \<or> c1 = CHR ''X''"
    by (cases w; cases "tl w") (auto simp: leading_0x_def)
  from c1 have "strtol_digits 8 (c1 # r) 0 = 0"
    by (auto simp: digit_value_def)
  then have a: "strtol_digits 8 w 0 = 0"
    by (simp add: w digit_value_def)
  have b: "strtol_digits 16 r 0 = 0"
  proof (cases r)
    case Nil
    then show ?thesis by simp
  next
    case (Cons c2 r')
    with assms(2) w c1 show ?thesis
      by (auto simp: hex_prefix_def split: option.splits)
  qed
  from a b w show ?thesis by simp
qed

lemma strtol_base0:
  assumes "isdigit (first_byte w)"
  shows "strtol w 0 =
     to_long False
       (if leading_0x w then strtol_digits 16 (drop 2 w) 0
        else if first_byte w = CHR ''0'' then strtol_digits 8 w 0
        else strtol_digits 10 w 0)"
proof -
  from isdigit_first_byte [OF assms] obtain c cs where w: "w = c # cs" and c: "isdigit c"
    by blast
  from isdigit_not_space_sign [OF c] w
  have pre: "dropWhile isspace w = w" "first_byte w \<noteq> CHR ''-''" "first_byte w \<noteq> CHR ''+''"
    by (simp_all add: first_byte_def)
  then have s: "strtol w 0 =
      to_long False (strtol_digits (detect_base w) (if detect_base w = 16 \<and> hex_prefix w then drop 2 w else w) 0)"
    by (simp add: strtol_def Let_def)
  show ?thesis
  proof (cases "hex_prefix w")
    case True
    with hex_prefix_leading [OF True] s show ?thesis
      by (simp add: detect_base_def)
  next
    case False
    show ?thesis
    proof (cases "leading_0x w")
      case True
      then have "first_byte w = CHR ''0''"
        by (cases w) (auto simp: leading_0x_def first_byte_def)
      with s False True leading_0x_no_hex [OF True False] show ?thesis
        by (simp add: detect_base_def)
    next
      case nl: False
      with s False show ?thesis
        by (simp add: detect_base_def)
    qed
  qed
qed

lemma hex_float_leading: "hex_float w \<Longrightarrow> leading_0x w"
  by (auto simp: hex_float_def leading_0x_def split: list.splits)

text \<open>
  C6, as the code has it. For every word whose first byte is an ASCII digit, evaluated
  in runtime mode: if the word contains a \<^verbatim>\<open>.\<close>, \<^verbatim>\<open>strtod\<close> reads it and the value,
  rounded to a Double, is pushed; the word is read as a decimal floating-point number,
  unless it starts with \<^verbatim>\<open>0x\<close> and a hexadecimal mantissa, when it is read as a
  hexadecimal floating-point number. Otherwise \<^verbatim>\<open>strtol\<close> with base 0 reads it and the
  result is pushed as an Integer, where a leading \<^verbatim>\<open>0x\<close> means base 16, a leading
  \<^verbatim>\<open>0\<close> base 8, and anything else base 10.
\<close>

theorem numeric_literal_pushed:
  "\<not> isCompiling s \<Longrightarrow> isdigit (first_byte word) \<Longrightarrow>
     eval L n word rest s =
       Inr (Pos 0, rest,
            stack_push
              (if CHR ''.'' \<in> set word
               then V_double (to_double L (if hex_float (c_str word) then hex_value (c_str word)
                                           else decimal_value (c_str word)))
               else V_long (strtol (c_str word) 0)) s) \<and>
     (hex_float (c_str word) \<longrightarrow> leading_0x (c_str word)) \<and>
     strtol (c_str word) 0 =
       to_long False
         (if leading_0x (c_str word) then strtol_digits 16 (drop 2 (c_str word)) 0
          else if first_byte word = CHR ''0'' then strtol_digits 8 (c_str word) 0
          else strtol_digits 10 (c_str word) 0)"
proof -
  assume rt: "\<not> isCompiling s" and d: "isdigit (first_byte word)"
  from isdigit_first_byte [OF d] have ne: "word \<noteq> []" by auto
  have dot: "str_find word (CHR ''.'') \<noteq> npos \<longleftrightarrow> CHR ''.'' \<in> set word"
    by (simp add: str_find_npos)
  from d have dc: "isdigit (first_byte (c_str word))"
    by (simp add: c_str_digit)
  from rt d ne dc have "eval L n word rest s =
       Inr (Pos 0, rest,
            stack_push
              (if CHR ''.'' \<in> set word
               then V_double (to_double L (if hex_float (c_str word) then hex_value (c_str word)
                                           else decimal_value (c_str word)))
               else V_long (strtol (c_str word) 0)) s)"
    by (simp add: eval.simps runtime_eval.simps dot strtod_def)
  moreover from strtol_base0 [OF dc] c_str_digit [OF d]
  have "strtol (c_str word) 0 =
       to_long False
         (if leading_0x (c_str word) then strtol_digits 16 (drop 2 (c_str word)) 0
          else if first_byte word = CHR ''0'' then strtol_digits 8 (c_str word) 0
          else strtol_digits 10 (c_str word) 0)"
    by simp
  ultimately show ?thesis
    using hex_float_leading by blast
qed

lemma decimal_value_1_5: "decimal_value ''1.5'' = 3 / 2"
  by (simp add: decimal_value_def mantissa_def valid_digit_def digit_value_def first_byte_def
                significand_def exponent_def scale_def)

lemma decimal_value_25e_1: "decimal_value ''25.0e-1'' = 5 / 2"
  by (simp add: decimal_value_def mantissa_def valid_digit_def digit_value_def first_byte_def
                significand_def exponent_def scale_def)

lemma decimal_value_0x1_8: "decimal_value ''0x1.8'' = 0"
  by (simp add: decimal_value_def mantissa_def valid_digit_def digit_value_def first_byte_def
                significand_def exponent_def scale_def)

lemma hex_value_0x1_8: "hex_float ''0x1.8'' \<and> hex_value ''0x1.8'' = 3 / 2"
  by (simp add: hex_float_def hex_value_def mantissa_def valid_digit_def digit_value_def
                first_byte_def significand_def exponent_def scale_def)

lemma not_hex_float_decimal: "\<not> hex_float ''1.5'' \<and> \<not> hex_float ''25.0e-1''"
  by (simp add: hex_float_def)

theorem numeric_literal_pushed_witness:
  "eval exact_libc 0 ''0x1F'' [] new_Privates = Inr (Pos 0, [], new_Privates\<lparr>stack := [V_long 31]\<rparr>) \<and>
   eval exact_libc 0 ''017'' [] new_Privates = Inr (Pos 0, [], new_Privates\<lparr>stack := [V_long 15]\<rparr>) \<and>
   eval exact_libc 0 ''17'' [] new_Privates = Inr (Pos 0, [], new_Privates\<lparr>stack := [V_long 17]\<rparr>) \<and>
   eval exact_libc 0 ''1.5'' [] new_Privates =
     Inr (Pos 0, [], new_Privates\<lparr>stack := [V_double (3 / 2)]\<rparr>) \<and>
   eval exact_libc 0 ''25.0e-1'' [] new_Privates =
     Inr (Pos 0, [], new_Privates\<lparr>stack := [V_double (5 / 2)]\<rparr>) \<and>
   eval exact_libc 0 ''0x1.8'' [] new_Privates =
     Inr (Pos 0, [], new_Privates\<lparr>stack := [V_double (3 / 2)]\<rparr>)"
proof -
  have rt: "\<not> isCompiling (new_Privates :: rat Privates)"
    by (simp add: new_Privates_def)
  have d: "isdigit (first_byte ''0x1F'')" "isdigit (first_byte ''017'')"
    "isdigit (first_byte ''17'')" "isdigit (first_byte ''1.5'')"
    "isdigit (first_byte ''25.0e-1'')" "isdigit (first_byte ''0x1.8'')"
    by (simp_all add: isdigit_def first_byte_def)
  have st: "stack (new_Privates :: rat Privates) = []"
    by (simp add: new_Privates_def)
  have c: "c_str ''1.5'' = ''1.5''" "c_str ''25.0e-1'' = ''25.0e-1''" "c_str ''0x1.8'' = ''0x1.8''"
    by (simp_all add: c_str_def)
  have td: "to_double exact_libc = (\<lambda>q. q)"
    by (simp add: exact_libc_def)
  from numeric_literal_pushed [OF rt d(1), of exact_libc 0 "[]"]
  have "eval exact_libc 0 ''0x1F'' [] new_Privates = Inr (Pos 0, [], new_Privates\<lparr>stack := [V_long 31]\<rparr>)"
    by (simp add: c_str_def leading_0x_def digit_value_def to_long_def stack_push_def st)
  moreover from numeric_literal_pushed [OF rt d(2), of exact_libc 0 "[]"]
  have "eval exact_libc 0 ''017'' [] new_Privates = Inr (Pos 0, [], new_Privates\<lparr>stack := [V_long 15]\<rparr>)"
    by (simp add: c_str_def leading_0x_def digit_value_def to_long_def stack_push_def st first_byte_def)
  moreover from numeric_literal_pushed [OF rt d(3), of exact_libc 0 "[]"]
  have "eval exact_libc 0 ''17'' [] new_Privates = Inr (Pos 0, [], new_Privates\<lparr>stack := [V_long 17]\<rparr>)"
    by (simp add: c_str_def leading_0x_def digit_value_def to_long_def stack_push_def st first_byte_def)
  moreover from numeric_literal_pushed [OF rt d(4), of exact_libc 0 "[]"]
  have "eval exact_libc 0 ''1.5'' [] new_Privates =
     Inr (Pos 0, [], new_Privates\<lparr>stack := [V_double (3 / 2)]\<rparr>)"
    by (simp add: c td decimal_value_1_5 not_hex_float_decimal stack_push_def st)
  moreover from numeric_literal_pushed [OF rt d(5), of exact_libc 0 "[]"]
  have "eval exact_libc 0 ''25.0e-1'' [] new_Privates =
     Inr (Pos 0, [], new_Privates\<lparr>stack := [V_double (5 / 2)]\<rparr>)"
    by (simp add: c td decimal_value_25e_1 not_hex_float_decimal stack_push_def st)
  moreover from numeric_literal_pushed [OF rt d(6), of exact_libc 0 "[]"]
  have "eval exact_libc 0 ''0x1.8'' [] new_Privates =
     Inr (Pos 0, [], new_Privates\<lparr>stack := [V_double (3 / 2)]\<rparr>)"
    by (simp add: c td hex_value_0x1_8 stack_push_def st)
  ultimately show ?thesis by blast
qed

text \<open>
  The claim as the specification states it has every word with a \<^verbatim>\<open>.\<close> read as a
  decimal number. The word \<^verbatim>\<open>0x1.8\<close> starts with a digit and contains a \<^verbatim>\<open>.\<close>; read
  as a decimal number it is 0 (the digits stop at \<^verbatim>\<open>x\<close>), and the code pushes 1.5,
  its value as a hexadecimal floating-point number.
\<close>

theorem numeric_literal_decimal_counterexample:
  "isdigit (first_byte ''0x1.8'') \<and> CHR ''.'' \<in> set ''0x1.8'' \<and>
   \<not> isCompiling (new_Privates :: rat Privates) \<and>
   eval exact_libc 0 ''0x1.8'' [] new_Privates =
     Inr (Pos 0, [], stack_push (V_double (3 / 2)) new_Privates) \<and>
   to_double exact_libc (decimal_value (c_str ''0x1.8'')) = 0 \<and>
   eval exact_libc 0 ''0x1.8'' [] new_Privates \<noteq>
     Inr (Pos 0, [],
          stack_push (V_double (to_double exact_libc (decimal_value (c_str ''0x1.8'')))) new_Privates)"
proof -
  have d: "isdigit (first_byte ''0x1.8'')" and dot: "CHR ''.'' \<in> set ''0x1.8''"
    by (simp_all add: isdigit_def first_byte_def)
  have rt: "\<not> isCompiling (new_Privates :: rat Privates)"
    by (simp add: new_Privates_def)
  have c: "c_str ''0x1.8'' = ''0x1.8''"
    by (simp add: c_str_def)
  have td: "to_double exact_libc = (\<lambda>q. q)"
    by (simp add: exact_libc_def)
  have e: "eval exact_libc 0 ''0x1.8'' [] new_Privates =
     Inr (Pos 0, [], stack_push (V_double (3 / 2)) new_Privates)"
    using rt d
    by (simp add: eval.simps runtime_eval.simps str_find_npos strtod_def c td hex_value_0x1_8)
  have z: "to_double exact_libc (decimal_value (c_str ''0x1.8'')) = 0"
    by (simp add: c td decimal_value_0x1_8)
  have "stack_push (V_double (3 / 2)) (new_Privates :: rat Privates) \<noteq>
        stack_push (V_double 0) new_Privates"
  proof
    assume "stack_push (V_double (3 / 2)) (new_Privates :: rat Privates) =
            stack_push (V_double 0) new_Privates"
    then have "stack (stack_push (V_double (3 / 2)) (new_Privates :: rat Privates)) =
               stack (stack_push (V_double 0) new_Privates)"
      by simp
    then show False
      by (simp add: stack_push_def)
  qed
  with d dot rt e z show ?thesis by simp
qed

subsection \<open>Unknown words\<close>

text \<open>
  C2, as the code has it. In runtime mode, a word \<open>W\<close> whose first byte is not an
  ASCII digit and that is absent from the runtime dictionary evaluates to 0, the value a
  successful evaluation returns (the evaluators have no result for an unknown word); the
  line \<^verbatim>\<open>not found '<W>' in dict\<close> is printed (\<^verbatim>\<open>printf\<close> prints \<open>W\<close> up to its first
  NUL), and nothing else of the state changes: the stack, the dictionaries and the
  compilation state are as before.
\<close>

theorem unknown_word_not_found:
  "\<not> isCompiling s \<Longrightarrow> W \<noteq> [] \<Longrightarrow> \<not> isdigit (first_byte W) \<Longrightarrow>
   runtimeDictionary s W = None \<Longrightarrow>
     eval L n W rest s =
       Inr (Pos 0, rest,
            s\<lparr>printed := printed s @
                 [Text (''not found '' @ quoted (c_str W) @ '' in dict'' @ [CHR 0x0A])]\<rparr>)"
  by (simp add: eval.simps runtime_eval.simps print_def)

lemma lookup_FOO: "runtimeDictionary (new_Privates :: 'd Privates) ''FOO'' = None"
  by (simp add: new_Privates_def runtime_words_def)

lemma lookup_PI:
  "runtimeDictionary (new_Privates :: 'd Privates) ''PI'' = Some (entry ''The constant PI'' [[]] fn_nop)"
  by (simp add: new_Privates_def runtime_words_def)

theorem unknown_word_not_found_witness:
  "eval test_libc 0 ''FOO'' ''1 2'' new_Privates =
     Inr (Pos 0, ''1 2'',
          new_Privates\<lparr>printed := [Text (''not found '' @ [CHR 0x27] @ ''FOO'' @ [CHR 0x27] @
                                        '' in dict'' @ [CHR 0x0A])]\<rparr>)"
proof -
  have "\<not> isCompiling (new_Privates :: int Privates)" and "printed (new_Privates :: int Privates) = []"
    by (simp_all add: new_Privates_def)
  moreover have "''FOO'' \<noteq> []" and "\<not> isdigit (first_byte ''FOO'')"
    by (simp_all add: isdigit_def first_byte_def)
  ultimately show ?thesis
    using unknown_word_not_found [of new_Privates "''FOO''" test_libc 0 "''1 2''"] lookup_FOO
    by (simp add: quoted_def c_str_def)
qed

text \<open>
  The claim as the specification states it asks for a result \<^verbatim>\<open>dict_error\<close>. The
  evaluator returns 0 for the unknown word \<^verbatim>\<open>FOO\<close>, as it does for the known word
  \<^verbatim>\<open>PI\<close>, and \<^verbatim>\<open>parse\<close> returns \<^verbatim>\<open>true\<close> for both lines.
\<close>

theorem unknown_word_result_counterexample:
  "map_sum id fst (eval test_libc 0 ''FOO'' [] new_Privates) = Inr (Pos 0) \<and>
   map_sum id fst (eval test_libc 0 ''PI'' [] new_Privates) = Inr (Pos 0) \<and>
   map_sum id fst (parse test_libc 0 ''FOO'' new_Privates) = Inr True \<and>
   map_sum id fst (parse test_libc 0 ''PI'' new_Privates) = Inr True"
proof -
  have rt: "\<not> isCompiling (new_Privates :: int Privates)"
    by (simp add: new_Privates_def)
  have nd: "\<not> isdigit (first_byte ''FOO'')" "\<not> isdigit (first_byte ''PI'')"
    by (simp_all add: isdigit_def first_byte_def)
  have e1: "eval test_libc 0 ''FOO'' [] new_Privates =
      Inr (Pos 0, [], print (Text (''not found '' @ quoted (c_str ''FOO'') @ '' in dict'' @ [CHR 0x0A])) new_Privates)"
    using rt nd by (simp add: eval.simps runtime_eval.simps lookup_FOO)
  have e2: "eval test_libc 0 ''PI'' [] new_Privates = Inr (Pos 0, [], new_Privates)"
    using rt nd by (simp add: eval.simps runtime_eval.simps lookup_PI validate_stack_for_word_def)
  have n1: "nextWord ''FOO'' (CHR '' '') = (npos, ''FOO'', [])"
    and n2: "nextWord ''PI'' (CHR '' '') = (npos, ''PI'', [])"
    by (simp_all add: nextWord_def)
  have "parse test_libc 0 ''FOO'' new_Privates =
      parse test_libc 0 [] (print (Text (''not found '' @ quoted (c_str ''FOO'') @ '' in dict'' @ [CHR 0x0A])) new_Privates)"
    by (subst parse.simps) (simp add: n1 e1)
  then have p1: "map_sum id fst (parse test_libc 0 ''FOO'' new_Privates) = Inr True"
    by (simp add: parse.simps)
  have "parse test_libc 0 ''PI'' new_Privates = parse test_libc 0 [] new_Privates"
    by (subst parse.simps) (simp add: n2 e2)
  then have p2: "map_sum id fst (parse test_libc 0 ''PI'' new_Privates) = Inr True"
    by (simp add: parse.simps)
  from e1 e2 p1 p2 show ?thesis by simp
qed

subsection \<open>The end of a definition\<close>

lemma user_eval_reinterpret_aux:
  "foldl (\<lambda>acc w. case acc of
                    Inl f \<Rightarrow> Inl f
                  | Inr st \<Rightarrow> (case eval L n w [] st of
                                 Inl f \<Rightarrow> Inl f
                               | Inr (rv, rest', st') \<Rightarrow> Inr st'))
         (Inl f) wl = Inl f"
  by (induction wl) simp_all

lemma user_eval_reinterpret: "user_eval L n wl s = reinterpret L n wl s"
proof (induction wl arbitrary: s)
  case Nil
  show ?case by (simp add: reinterpret_def)
next
  case (Cons w ws)
  show ?case
  proof (cases "eval L n w [] s")
    case (Inl f)
    then show ?thesis
      by (simp add: reinterpret_def user_eval_reinterpret_aux)
  next
    case (Inr r)
    then obtain rv rest' s' where "eval L n w [] s = Inr (rv, rest', s')"
      by (cases r) auto
    with Cons.IH [of s'] show ?thesis
      by (simp add: reinterpret_def)
  qed
qed

lemma lookup_end_definition:
  "map_of compiletime_words '';'' = Some (entry ''End Definition'' [[]] fn_end_definition)"
  by (simp add: compiletime_words_def)

text \<open>
  C5. The body of \<^verbatim>\<open>;\<close> stores under \<open>newWord\<close>, replacing any entry of that
  name, an entry whose body holds the captured tokens, and resets the compilation state:
  \<open>isCompiling\<close> is false, \<open>newWord\<close> and \<open>newDefinition\<close> are empty. In compile
  mode with a pending name, evaluating \<^verbatim>\<open>;\<close> runs that body. Running the installed
  entry (in a state whose dictionary still holds it, for a name that is not empty and
  does not start with a digit) evaluates the captured tokens in order, each with an empty remainder,
  and returns 0.
\<close>

theorem end_definition_installs:
  "call L n fn_end_definition word rest s =
     Inr (Pos 0, rest,
          s\<lparr>runtimeDictionary :=
              (runtimeDictionary s)(newWord s \<mapsto>
                 entry (''user '' @ newWord s) [] (fn_user (newDefinition s))),
            isCompiling := False, newWord := [], newDefinition := []\<rparr>) \<and>
   (isCompiling s \<and> newWord s \<noteq> [] \<and> compiletimeDictionary s = map_of compiletime_words \<longrightarrow>
      eval L n '';'' rest s = call L n fn_end_definition '';'' rest s) \<and>
   (\<forall>s2 m r.
      runtimeDictionary s2 (newWord s) =
        Some (entry (''user '' @ newWord s) [] (fn_user (newDefinition s))) \<and>
      \<not> isCompiling s2 \<and> newWord s \<noteq> [] \<and> \<not> isdigit (first_byte (newWord s)) \<longrightarrow>
      eval L (Suc m) (newWord s) r s2 =
        (case reinterpret L m (newDefinition s) s2 of
           Inl f \<Rightarrow> Inl f
         | Inr s3 \<Rightarrow> Inr (Pos 0, r, s3)))"
proof -
  have a: "call L n fn_end_definition word rest s =
     Inr (Pos 0, rest,
          s\<lparr>runtimeDictionary :=
              (runtimeDictionary s)(newWord s \<mapsto>
                 entry (''user '' @ newWord s) [] (fn_user (newDefinition s))),
            isCompiling := False, newWord := [], newDefinition := []\<rparr>)"
    by (simp add: end_definition_def)
  have b: "eval L n '';'' rest s = call L n fn_end_definition '';'' rest s"
    if "isCompiling s \<and> newWord s \<noteq> [] \<and> compiletimeDictionary s = map_of compiletime_words"
    using that by (simp add: eval.simps compiletime_eval.simps lookup_end_definition)
  have c: "eval L (Suc m) (newWord s) r s2 =
          (case reinterpret L m (newDefinition s) s2 of
             Inl f \<Rightarrow> Inl f
           | Inr s3 \<Rightarrow> Inr (Pos 0, r, s3))"
    if "runtimeDictionary s2 (newWord s) =
          Some (entry (''user '' @ newWord s) [] (fn_user (newDefinition s))) \<and>
        \<not> isCompiling s2 \<and> newWord s \<noteq> [] \<and> \<not> isdigit (first_byte (newWord s))"
    for s2 m r
    using that
    by (simp add: eval.simps runtime_eval.simps validate_stack_for_word_def user_eval_reinterpret)
  from a b c show ?thesis by blast
qed

theorem end_definition_installs_witness:
  "eval test_libc 0 '';'' []
     (new_Privates\<lparr>isCompiling := True, newWord := ''foo'', newDefinition := [''1'', ''DUP'']\<rparr>) =
     Inr (Pos 0, [],
          new_Privates\<lparr>runtimeDictionary :=
            (map_of runtime_words)(''foo'' \<mapsto> entry ''user foo'' [] (fn_user [''1'', ''DUP'']))\<rparr>) \<and>
   eval test_libc 1 ''foo'' []
     (new_Privates\<lparr>runtimeDictionary :=
        (map_of runtime_words)(''foo'' \<mapsto> entry ''user foo'' [] (fn_user [''1'', ''DUP'']))\<rparr>) =
     Inr (Pos 0, [],
          new_Privates\<lparr>runtimeDictionary :=
            (map_of runtime_words)(''foo'' \<mapsto> entry ''user foo'' [] (fn_user [''1'', ''DUP''])),
            stack := [V_long 1, V_long 1]\<rparr>)"
proof -
  let ?s0 = "(new_Privates :: int Privates)\<lparr>isCompiling := True, newWord := ''foo'',
               newDefinition := [''1'', ''DUP'']\<rparr>"
  let ?s1 = "(new_Privates :: int Privates)\<lparr>runtimeDictionary :=
               (map_of runtime_words)(''foo'' \<mapsto> entry ''user foo'' [] (fn_user [''1'', ''DUP'']))\<rparr>"
  have h: "isCompiling ?s0 \<and> newWord ?s0 \<noteq> [] \<and> compiletimeDictionary ?s0 = map_of compiletime_words"
    by (simp add: new_Privates_def)
  note inst = end_definition_installs [of test_libc 0 "'';''" "[]" ?s0]
  have s1: "?s0\<lparr>runtimeDictionary :=
                (runtimeDictionary ?s0)(newWord ?s0 \<mapsto>
                   entry (''user '' @ newWord ?s0) [] (fn_user (newDefinition ?s0))),
              isCompiling := False, newWord := [], newDefinition := []\<rparr> = ?s1"
    by (simp add: new_Privates_def)
  from inst h have "eval test_libc 0 '';'' [] ?s0 = call test_libc 0 fn_end_definition '';'' [] ?s0"
    by blast
  with inst s1 have a: "eval test_libc 0 '';'' [] ?s0 = Inr (Pos 0, [], ?s1)"
    by simp
  have d: "map_of runtime_words ''DUP'' =
      Some (entry ''Duplicate top of stack'' [[param ''s1'' st_any]] fn_dup)"
    by (simp add: runtime_words_def)
  have e1: "eval test_libc 0 ''1'' [] ?s1 = Inr (Pos 0, [], ?s1\<lparr>stack := [V_long 1]\<rparr>)"
    by (simp add: eval.simps runtime_eval.simps new_Privates_def isdigit_def first_byte_def
                  c_str_def strtol_def detect_base_def hex_prefix_def isspace_def digit_value_def
                  to_long_def stack_push_def)
  have e2: "eval test_libc 0 ''DUP'' [] (?s1\<lparr>stack := [V_long 1]\<rparr>) =
      Inr (Pos 0, [], ?s1\<lparr>stack := [V_long 1, V_long 1]\<rparr>)"
    by (simp add: eval.simps runtime_eval.simps new_Privates_def isdigit_def first_byte_def d
                  validate_stack_for_word_def top_of_stack_types_def params_match.simps
                  stack_push_def)
  have r: "reinterpret test_libc 0 [''1'', ''DUP''] ?s1 = Inr (?s1\<lparr>stack := [V_long 1, V_long 1]\<rparr>)"
    by (simp add: reinterpret_def e1 e2)
  have pre: "runtimeDictionary ?s1 (newWord ?s0) =
          Some (entry (''user '' @ newWord ?s0) [] (fn_user (newDefinition ?s0))) \<and>
        \<not> isCompiling ?s1 \<and> newWord ?s0 \<noteq> [] \<and> \<not> isdigit (first_byte (newWord ?s0))"
    by (simp add: new_Privates_def isdigit_def first_byte_def)
  from inst have "\<forall>s2 m r.
        runtimeDictionary s2 (newWord ?s0) =
          Some (entry (''user '' @ newWord ?s0) [] (fn_user (newDefinition ?s0))) \<and>
        \<not> isCompiling s2 \<and> newWord ?s0 \<noteq> [] \<and> \<not> isdigit (first_byte (newWord ?s0)) \<longrightarrow>
        eval test_libc (Suc m) (newWord ?s0) r s2 =
          (case reinterpret test_libc m (newDefinition ?s0) s2 of
             Inl f \<Rightarrow> Inl f
           | Inr s3 \<Rightarrow> Inr (Pos 0, r, s3))"
    by blast
  with pre have "eval test_libc (Suc 0) (newWord ?s0) [] ?s1 =
          (case reinterpret test_libc 0 (newDefinition ?s0) ?s1 of
             Inl f \<Rightarrow> Inl f
           | Inr s3 \<Rightarrow> Inr (Pos 0, [], s3))"
    by blast
  with r have b: "eval test_libc 1 ''foo'' [] ?s1 = Inr (Pos 0, [], ?s1\<lparr>stack := [V_long 1, V_long 1]\<rparr>)"
    by simp
  from a b show ?thesis by simp
qed

subsection \<open>The arithmetic words of the constructor\<close>

text \<open>
  C4. The constructor's dictionary has entries for \<^verbatim>\<open>+\<close>, \<^verbatim>\<open>-\<close> and \<^verbatim>\<open>*\<close>, and none
  for \<^verbatim>\<open>/\<close>: the entry described as Divide is keyed \<^verbatim>\<open>"*"\<close>, a second time, so no
  pair of the initializer list has the key \<^verbatim>\<open>"/"\<close>, whichever of the two \<^verbatim>\<open>"*"\<close>
  pairs the map keeps. Evaluating \<^verbatim>\<open>/\<close> after construction prints that the word is not
  found.
\<close>

theorem divide_keyed_as_multiply:
  "map (\<lambda>w. runtimeDictionary (new_Privates :: int Privates) w \<noteq> None) [''+'', ''-'', ''*'', ''/'']
     = [True, True, True, False] \<and>
   ''/'' \<notin> fst ` set runtime_words \<and>
   (''*'', entry ''Divide (x y -- y/x)'' [[param ''x'' st_number, param ''y'' st_number]] fn_nop)
     \<in> set runtime_words \<and>
   eval test_libc 0 ''/'' [] new_Privates =
     Inr (Pos 0, [],
          new_Privates\<lparr>printed := [Text (''not found '' @ [CHR 0x27] @ ''/'' @ [CHR 0x27] @
                                        '' in dict'' @ [CHR 0x0A])]\<rparr>)"
proof -
  have "runtimeDictionary (new_Privates :: int Privates) ''+'' \<noteq> None"
    and "runtimeDictionary (new_Privates :: int Privates) ''-'' \<noteq> None"
    and "runtimeDictionary (new_Privates :: int Privates) ''*'' \<noteq> None"
    and none: "runtimeDictionary (new_Privates :: int Privates) ''/'' = None"
    by (simp_all add: new_Privates_def runtime_words_def)
  moreover have "''/'' \<notin> fst ` set runtime_words"
    by (simp add: runtime_words_def)
  moreover have "(''*'', entry ''Divide (x y -- y/x)'' [[param ''x'' st_number, param ''y'' st_number]] fn_nop)
     \<in> set runtime_words"
    by (simp add: runtime_words_def)
  moreover have "eval test_libc 0 ''/'' [] new_Privates =
     Inr (Pos 0, [],
          new_Privates\<lparr>printed := [Text (''not found '' @ [CHR 0x27] @ ''/'' @ [CHR 0x27] @
                                        '' in dict'' @ [CHR 0x0A])]\<rparr>)"
    using none
    by (simp add: eval.simps runtime_eval.simps isdigit_def first_byte_def print_def quoted_def
                  c_str_def)
       (simp add: new_Privates_def)
  ultimately show ?thesis by simp
qed

subsection \<open>parse and the results of the evaluator\<close>

lemma parse_Nil: "parse L n [] s = Inr (True, s)"
  by (simp add: parse.simps)

lemma parse_step:
  "line \<noteq> [] \<Longrightarrow> nextWord line (CHR '' '') = (p1, word, line') \<Longrightarrow>
   eval L n word line' s = Inr (sv, line'', s') \<Longrightarrow>
     parse L n line s = parse L n line'' s'"
  by (subst parse.simps) simp

lemma parse_true: "parse L n line s = Inr (b, s') \<Longrightarrow> b"
proof (induction L n line s rule: parse.induct)
  case (1 L n line s)
  show ?case
  proof (cases "line = []")
    case True
    with "1.prems" show ?thesis by (simp add: parse_Nil)
  next
    case False
    obtain p1 word line' where nw: "nextWord line (CHR '' '') = (p1, word, line')"
      by (cases "nextWord line (CHR '' '')")
    show ?thesis
    proof (cases "eval L n word line' s")
      case (Inl f)
      with False nw "1.prems" show ?thesis
        by (subst (asm) parse.simps) simp
    next
      case (Inr r)
      then obtain sv line'' s'' where ev: "eval L n word line' s = Inr (sv, line'', s'')"
        by (cases r) auto
      from "1.prems" parse_step [OF False nw ev] have rest: "parse L n line'' s'' = Inr (b, s')"
        by simp
      have nonempty: "0 < length line"
        using False by simp
      show ?thesis
        by (rule "1.IH" [OF nonempty nw [symmetric] refl ev refl refl rest])
    qed
  qed
qed

lemma lookup_colon:
  "map_of runtime_words '':'' = Some (entry ''Define new word'' [[]] fn_colon)"
  by (simp add: runtime_words_def)

lemma lookup_open_paren:
  "map_of runtime_words ''('' = Some (entry ''Commment'' [[]] fn_comment)"
  by (simp add: runtime_words_def)

lemma lookup_bar: "map_of runtime_words ''bar'' = None"
  by (simp add: runtime_words_def)

text \<open>
  C1. \<^verbatim>\<open>parse\<close> does not look at what the evaluator returns. On the line
  \<^verbatim>\<open>( test bad comment\<close> the evaluator returns \<^verbatim>\<open>npos\<close> for \<^verbatim>\<open>(\<close> and \<^verbatim>\<open>parse\<close>
  returns \<^verbatim>\<open>true\<close>. On the line \<^verbatim>\<open>: foo bar 1 ;\<close> the evaluator returns \<^verbatim>\<open>npos\<close> for
  the unknown word \<^verbatim>\<open>bar\<close>, and \<^verbatim>\<open>parse\<close> goes on with \<^verbatim>\<open>1\<close> and \<^verbatim>\<open>;\<close>: the
  definition of \<^verbatim>\<open>foo\<close> is installed with the body \<^verbatim>\<open>1\<close>, and \<^verbatim>\<open>parse\<close> returns
  \<^verbatim>\<open>true\<close>.
\<close>

theorem parse_ignores_npos:
  "eval test_libc 0 ''('' ''test bad comment'' new_Privates =
     Inr (npos, [],
          new_Privates\<lparr>printed := [Text (''parse error in comment: terminating '' @ [CHR 0x27] @
                                        '')'' @ [CHR 0x27] @ '' not found []'' @ [CHR 0x0A])]\<rparr>) \<and>
   parse test_libc 0 ''( test bad comment'' new_Privates =
     Inr (True,
          new_Privates\<lparr>printed := [Text (''parse error in comment: terminating '' @ [CHR 0x27] @
                                        '')'' @ [CHR 0x27] @ '' not found []'' @ [CHR 0x0A])]\<rparr>) \<and>
   eval test_libc 0 ''bar'' ''1 ;'' (new_Privates\<lparr>isCompiling := True, newWord := ''foo''\<rparr>) =
     Inr (npos, ''1 ;'',
          new_Privates\<lparr>isCompiling := True, newWord := ''foo'',
            printed := [Text (''unrecognized word at compile time: '' @ [CHR 0x27] @ ''bar'' @
                              [CHR 0x27] @ [CHR 0x0A])]\<rparr>) \<and>
   parse test_libc 0 '': foo bar 1 ;'' new_Privates =
     Inr (True,
          new_Privates\<lparr>runtimeDictionary :=
              (map_of runtime_words)(''foo'' \<mapsto> entry ''user foo'' [] (fn_user [''1''])),
            printed := [Text (''unrecognized word at compile time: '' @ [CHR 0x27] @ ''bar'' @
                              [CHR 0x27] @ [CHR 0x0A])]\<rparr>)"
proof -
  let ?c = "Text (''parse error in comment: terminating '' @ [CHR 0x27] @
                  '')'' @ [CHR 0x27] @ '' not found []'' @ [CHR 0x0A])"
  let ?u = "Text (''unrecognized word at compile time: '' @ [CHR 0x27] @ ''bar'' @
                  [CHR 0x27] @ [CHR 0x0A])"
  let ?s0 = "new_Privates :: int Privates"
  let ?s1 = "?s0\<lparr>isCompiling := True\<rparr>"
  let ?s2 = "?s0\<lparr>isCompiling := True, newWord := ''foo''\<rparr>"
  let ?s3 = "?s0\<lparr>isCompiling := True, newWord := ''foo'', printed := [?u]\<rparr>"
  let ?s4 = "?s0\<lparr>isCompiling := True, newWord := ''foo'', newDefinition := [''1''], printed := [?u]\<rparr>"
  let ?s5 = "?s0\<lparr>runtimeDictionary :=
              (map_of runtime_words)(''foo'' \<mapsto> entry ''user foo'' [] (fn_user [''1''])),
            printed := [?u]\<rparr>"
  have f: "isCompiling ?s0 = False" "newWord ?s0 = []" "newDefinition ?s0 = []" "printed ?s0 = []"
    "compiletimeDictionary ?s0 = map_of compiletime_words"
    "runtimeDictionary ?s0 = map_of runtime_words"
    by (simp_all add: new_Privates_def)
  have nd: "\<not> isdigit (first_byte ''('')" "\<not> isdigit (first_byte '':'')"
    "\<not> isdigit (first_byte ''bar'')" "isdigit (first_byte ''1'')"
    by (simp_all add: isdigit_def first_byte_def)
  have c1: "eval test_libc 0 ''('' ''test bad comment'' ?s0 = Inr (npos, [], ?s0\<lparr>printed := [?c]\<rparr>)"
    using nd f
    by (simp add: eval.simps runtime_eval.simps lookup_open_paren validate_stack_for_word_def
                  parse_comment_def nextWord_def print_def quoted_def c_str_def)
  have "parse test_libc 0 ''( test bad comment'' ?s0 = parse test_libc 0 [] (?s0\<lparr>printed := [?c]\<rparr>)"
    by (rule parse_step [OF _ _ c1]) (simp_all add: nextWord_def substr_def)
  then have c2: "parse test_libc 0 ''( test bad comment'' ?s0 = Inr (True, ?s0\<lparr>printed := [?c]\<rparr>)"
    by (simp add: parse_Nil)
  have e1: "eval test_libc 0 '':'' ''foo bar 1 ;'' ?s0 = Inr (Pos 0, ''foo bar 1 ;'', ?s1)"
    using nd f
    by (simp add: eval.simps runtime_eval.simps lookup_colon validate_stack_for_word_def)
  have e2: "eval test_libc 0 ''foo'' ''bar 1 ;'' ?s1 = Inr (Pos 0, ''bar 1 ;'', ?s2)"
    using f by (simp add: eval.simps compiletime_eval.simps)
  have e3: "eval test_libc 0 ''bar'' ''1 ;'' ?s2 = Inr (npos, ''1 ;'', ?s3)"
    using nd f
    by (simp add: eval.simps compiletime_eval.simps compiletime_words_def lookup_bar print_def
                  quoted_def c_str_def)
  have e4: "eval test_libc 0 ''1'' '';'' ?s3 = Inr (Pos 0, '';'', ?s4)"
    using nd f
    by (simp add: eval.simps compiletime_eval.simps compiletime_words_def)
  have e5: "eval test_libc 0 '';'' [] ?s4 = Inr (Pos 0, [], ?s5)"
    using f
    by (simp add: eval.simps compiletime_eval.simps compiletime_words_def end_definition_def)
  have "parse test_libc 0 '': foo bar 1 ;'' ?s0 = parse test_libc 0 ''foo bar 1 ;'' ?s1"
    by (rule parse_step [OF _ _ e1]) (simp_all add: nextWord_def substr_def)
  also have "\<dots> = parse test_libc 0 ''bar 1 ;'' ?s2"
    by (rule parse_step [OF _ _ e2]) (simp_all add: nextWord_def substr_def)
  also have "\<dots> = parse test_libc 0 ''1 ;'' ?s3"
    by (rule parse_step [OF _ _ e3]) (simp_all add: nextWord_def substr_def)
  also have "\<dots> = parse test_libc 0 '';'' ?s4"
    by (rule parse_step [OF _ _ e4]) (simp_all add: nextWord_def substr_def)
  also have "\<dots> = parse test_libc 0 [] ?s5"
    by (rule parse_step [OF _ _ e5]) (simp_all add: nextWord_def substr_def)
  finally have c4: "parse test_libc 0 '': foo bar 1 ;'' ?s0 = Inr (True, ?s5)"
    by (simp add: parse_Nil)
  from c1 c2 e3 c4 show ?thesis by simp
qed

end
